theory Spec2Isabelle
  imports Main
begin

section \<open>The IR graph\<close>

text \<open>
  The folder of \<^verbatim>\<open>lib/Transforms/Utils/FoldUtils.cpp\<close> works on the operations of one
  function. An \<^verbatim>\<open>Operation *\<close> is an identifier; a \<^verbatim>\<open>Value *\<close> is a result of an
  operation or a block argument. The function body is its list of blocks, the entry
  block first, each block the list of its operations in program order. The use list of
  a value is read off the operand lists.
\<close>

type_synonym op_id = nat

datatype mtype = IntegerType nat | IndexType | FloatType nat | OpaqueType string

text \<open>
  Types and attributes are compared by value (\<^verbatim>\<open>lib/IR/AttributeDetail.h\<close> keys an
  integer attribute by its type and value, a string attribute by its text, and so on);
  the folder only ever compares them and uses them as keys.
\<close>

datatype attribute =
    OpaqueAttr string string
  | BoolAttr bool
  | IntegerAttr mtype int
  | StringAttr string
  | ArrayAttr "attribute list"
  | TypeAttr mtype

datatype val = OpResult op_id nat | BlockArgument nat nat

text \<open>\<^verbatim>\<open>OpFoldResult\<close> is a pointer union of an attribute and a value; it can be null.\<close>

datatype OpFoldResult = FoldNull | FoldAttr attribute | FoldValue val

text \<open>
  \<^verbatim>\<open>ConstantOp\<close> is the one constant kind the folder knows (\<^verbatim>\<open>dyn_cast<ConstantOp>\<close>);
  it carries its value attribute. The kind, the result types and commutativity of an
  operation never change; operands and attributes can be updated in place.
\<close>

datatype op_kind = ConstantOp attribute | OtherOp string

record operation =
  kind :: op_kind
  operands :: "val list"
  resultTypes :: "mtype list"
  attrs :: "(string \<times> attribute) list"
  isCommutative :: bool

datatype LogicalResult = success | failure

datatype error = AssertionFailed | OutOfBounds

text \<open>
  The folder: the function it manages (\<open>body\<close>, and \<open>nextOp\<close>, the identifier the next
  allocated operation gets) and the map of uniqued constants.
\<close>

record OperationFolder =
  body :: "(op_id \<times> operation) list list"
  nextOp :: op_id
  uniquedConstants :: "attribute \<times> mtype \<rightharpoonup> op_id"

text \<open>
  The operation's fold hook (\<^verbatim>\<open>op->fold(operandConstants, foldResults)\<close>) belongs to the
  operation definitions and is a parameter. It sees the operation and the constant
  operands; \<open>None\<close> is failure, and on success it gives the operands and attributes the
  operation has after the call (an in-place update changes them) and the fold results.
  A hook changes no other operation, and a hook that fails changes nothing.
\<close>

type_synonym fold_hook =
  "operation \<Rightarrow> attribute option list \<Rightarrow>
     (val list \<times> (string \<times> attribute) list \<times> OpFoldResult list) option"

text \<open>
  Every operation of the function in block order, the operation an identifier stands
  for (\<open>None\<close>: not an operation of the function, what \<^verbatim>\<open>op->getFunction() == function\<close>
  asserts), and the result values of an operation.
\<close>

definition allOps :: "OperationFolder \<Rightarrow> (op_id \<times> operation) list" where
  "allOps st = concat (body st)"

definition getOp :: "OperationFolder \<Rightarrow> op_id \<Rightarrow> operation option" where
  "getOp st i = map_of (allOps st) i"

definition opResults :: "op_id \<Rightarrow> operation \<Rightarrow> val list" where
  "opResults i op = map (OpResult i) [0..<length (resultTypes op)]"

text \<open>
  Modelled from the spec: the use lists of \<^verbatim>\<open>Value\<close> and \<^verbatim>\<open>use_empty\<close> are declared in IR
  headers that are not among the sources. The spec's primitive asks whether a result
  has zero uses; a use is an operand slot of an operation of the function that holds
  the value, and an operation is unused when none of its results has a use.
\<close>

definition users :: "OperationFolder \<Rightarrow> val \<Rightarrow> op_id list" where
  "users st v = map fst (filter (\<lambda>p. v \<in> set (operands (snd p))) (allOps st))"

definition use_empty :: "OperationFolder \<Rightarrow> op_id \<Rightarrow> operation \<Rightarrow> bool" where
  "use_empty st i op = list_all (\<lambda>v. users st v = []) (opResults i op)"

subsection \<open>Graph mutation primitives\<close>

text \<open>
  Modelled from the spec: \<^verbatim>\<open>Operation::erase\<close>, \<^verbatim>\<open>Value::replaceAllUsesWith\<close>,
  \<^verbatim>\<open>Operation::moveBefore\<close>, the operand setters and \<^verbatim>\<open>OpBuilder::create\<close> are defined
  in IR sources that are not among the files. The spec names them as the primitives
  the folder consumes: erase an operation, redirect all uses of a result to another
  value, move an operation to a position of a block, build an operation at an insertion
  point. \<open>updateOps\<close> rewrites operations where they stand; \<open>setOp\<close> writes one operation
  (an in-place change of its operands or attributes).
\<close>

definition updateOps :: "(op_id \<Rightarrow> operation \<Rightarrow> operation) \<Rightarrow> OperationFolder \<Rightarrow> OperationFolder" where
  "updateOps f st = st\<lparr>body := map (map (\<lambda>p. (fst p, f (fst p) (snd p)))) (body st)\<rparr>"

definition setOp :: "OperationFolder \<Rightarrow> op_id \<Rightarrow> operation \<Rightarrow> OperationFolder" where
  "setOp st i op = updateOps (\<lambda>j old. if j = i then op else old) st"

text \<open>Modelled from the spec: redirect all uses of the value \<open>v\<close> to the value \<open>w\<close>.\<close>

definition replaceIn :: "val \<Rightarrow> val \<Rightarrow> operation \<Rightarrow> operation" where
  "replaceIn v w op = op\<lparr>operands := map (\<lambda>x. if x = v then w else x) (operands op)\<rparr>"

definition replaceAllUsesWith :: "OperationFolder \<Rightarrow> val \<Rightarrow> val \<Rightarrow> OperationFolder" where
  "replaceAllUsesWith st v w = updateOps (\<lambda>j. replaceIn v w) st"

text \<open>Modelled from the spec: erase an operation; it leaves its block.\<close>

definition erase :: "OperationFolder \<Rightarrow> op_id \<Rightarrow> OperationFolder" where
  "erase st i = st\<lparr>body := map (filter (\<lambda>p. fst p \<noteq> i)) (body st)\<rparr>"

text \<open>
  Modelled from the spec: build an operation at an insertion point. The new operation
  gets the next identifier. \<open>createBefore\<close> is \<^verbatim>\<open>OpBuilder builder(op); builder.create(...)\<close>,
  which inserts right before the operation \<open>a\<close>; \<open>createAt\<close> is a caller's builder whose
  insertion point is position \<open>p\<close> of block \<open>b\<close>, and with no such block the new
  operation is in no block of the function.
\<close>

fun insertBefore :: "op_id \<Rightarrow> op_id \<times> operation \<Rightarrow> (op_id \<times> operation) list \<Rightarrow> (op_id \<times> operation) list" where
  "insertBefore a new [] = []"
| "insertBefore a new (p # ps) =
     (if fst p = a then new # p # ps else p # insertBefore a new ps)"

definition createBefore :: "OperationFolder \<Rightarrow> op_id \<Rightarrow> operation \<Rightarrow> OperationFolder" where
  "createBefore st a op =
     st\<lparr>body := map (insertBefore a (nextOp st, op)) (body st), nextOp := Suc (nextOp st)\<rparr>"

definition createAt :: "OperationFolder \<Rightarrow> nat \<Rightarrow> nat \<Rightarrow> operation \<Rightarrow> OperationFolder" where
  "createAt st b p op =
     st\<lparr>body := (if b < length (body st)
                 then (body st)[b := take p (body st ! b) @ (nextOp st, op) # drop p (body st ! b)]
                 else body st),
        nextOp := Suc (nextOp st)\<rparr>"

subsection \<open>The constant matcher\<close>

text \<open>
  Modelled from the spec: \<^verbatim>\<open>matchPattern\<close> and \<^verbatim>\<open>m_Constant\<close> of \<^verbatim>\<open>mlir/IR/Matchers.h\<close>
  are not among the sources. The spec's constant matcher tells whether an operation or
  a value denotes a compile-time constant and then yields its value; the one constant
  kind is \<open>ConstantOp\<close>, and a value is constant when the operation defining it is.
\<close>

definition m_Constant :: "operation \<Rightarrow> attribute option" where
  "m_Constant op = (case kind op of ConstantOp a \<Rightarrow> Some a | OtherOp _ \<Rightarrow> None)"

definition m_ConstantValue :: "OperationFolder \<Rightarrow> val \<Rightarrow> attribute option" where
  "m_ConstantValue st v =
     (case v of
        OpResult i k \<Rightarrow> (case getOp st i of Some op \<Rightarrow> m_Constant op | None \<Rightarrow> None)
      | BlockArgument b k \<Rightarrow> None)"

section \<open>OperationFolder\<close>

text \<open>
  \<^verbatim>\<open>op->moveBefore(&entryBB, entryBB.begin())\<close> with \<^verbatim>\<open>entryBB = function->front()\<close>: the
  operation leaves its place and becomes the first operation of the first block.
\<close>

definition moveConstantToEntryBlock :: "OperationFolder \<Rightarrow> op_id \<Rightarrow> OperationFolder" where
  "moveConstantToEntryBlock st i =
     (case getOp st i of
        None \<Rightarrow> st
      | Some op \<Rightarrow>
          (case map (filter (\<lambda>p. fst p \<noteq> i)) (body st) of
             [] \<Rightarrow> st
           | entryBB # bs \<Rightarrow> st\<lparr>body := ((i, op) # entryBB) # bs\<rparr>))"

definition notifyRemoval :: "OperationFolder \<Rightarrow> op_id \<Rightarrow> error + OperationFolder" where
  "notifyRemoval st i =
     (case getOp st i of
        None \<Rightarrow> Inl AssertionFailed
      | Some op \<Rightarrow>
          (case m_Constant op of
             None \<Rightarrow> Inr st
           | Some constValue \<Rightarrow>
               (case resultTypes op of
                  [] \<Rightarrow> Inl OutOfBounds
                | t # _ \<Rightarrow>
                    if uniquedConstants st (constValue, t) = Some i
                    then Inr (st\<lparr>uniquedConstants := (uniquedConstants st)((constValue, t) := None)\<rparr>)
                    else Inr st)))"

definition tryToUnify :: "OperationFolder \<Rightarrow> op_id \<Rightarrow> error + LogicalResult \<times> OperationFolder" where
  "tryToUnify st i =
     (case getOp st i of
        None \<Rightarrow> Inl AssertionFailed
      | Some op \<Rightarrow>
          (case m_Constant op of
             None \<Rightarrow> Inl AssertionFailed
           | Some constValue \<Rightarrow>
               (case resultTypes op of
                  [] \<Rightarrow> Inl OutOfBounds
                | t # _ \<Rightarrow>
                    (case uniquedConstants st (constValue, t) of
                       Some constInst \<Rightarrow>
                         if constInst = i then Inr (failure, st)
                         else Inr (success,
                                erase (replaceAllUsesWith st (OpResult i 0) (OpResult constInst 0)) i)
                     | None \<Rightarrow>
                         Inr (failure,
                           moveConstantToEntryBlock
                             (st\<lparr>uniquedConstants := (uniquedConstants st)((constValue, t) \<mapsto> i)\<rparr>) i)))))"

text \<open>
  The commutative swap of the private \<^verbatim>\<open>tryToFold\<close>: exactly two operands, the first
  constant and the second not, on a commutative operation.
\<close>

definition swapCommutative :: "operation \<Rightarrow> attribute option list \<Rightarrow> operation \<times> attribute option list" where
  "swapCommutative op operandConstants =
     (case operandConstants of
        [Some c, None] \<Rightarrow>
          if isCommutative op
          then (op\<lparr>operands := [operands op ! 1, operands op ! 0]\<rparr>, [None, Some c])
          else (op, operandConstants)
      | _ \<Rightarrow> (op, operandConstants))"

text \<open>The loop over the fold results, each paired with the type of its result.\<close>

fun materialize ::
  "OperationFolder \<Rightarrow> op_id \<Rightarrow> (OpFoldResult \<times> mtype) list \<Rightarrow> val list \<Rightarrow> error + OperationFolder \<times> val list" where
  "materialize st i [] results = Inr (st, results)"
| "materialize st i ((FoldNull, t) # rest) results = Inl AssertionFailed"
| "materialize st i ((FoldValue repl, t) # rest) results = materialize st i rest (results @ [repl])"
| "materialize st i ((FoldAttr attrRepl, t) # rest) results =
     (case uniquedConstants st (attrRepl, t) of
        Some constInst \<Rightarrow> materialize st i rest (results @ [OpResult constInst 0])
      | None \<Rightarrow>
          (let newOp = nextOp st;
               st1 = createBefore st i
                       \<lparr>kind = ConstantOp attrRepl, operands = [], resultTypes = [t],
                        attrs = [], isCommutative = False\<rparr>;
               st2 = st1\<lparr>uniquedConstants := (uniquedConstants st1)((attrRepl, t) \<mapsto> newOp)\<rparr>;
               st3 = moveConstantToEntryBlock st2 newOp
           in materialize st3 i rest (results @ [OpResult newOp 0])))"

text \<open>What the fold hook is called with: the operation after the swap, and the constants.\<close>

definition foldInput :: "OperationFolder \<Rightarrow> operation \<Rightarrow> operation \<times> attribute option list" where
  "foldInput st op = swapCommutative op (map (m_ConstantValue st) (operands op))"

text \<open>The private \<^verbatim>\<open>tryToFold(op, results)\<close>.\<close>

definition tryToFoldResults ::
  "fold_hook \<Rightarrow> OperationFolder \<Rightarrow> op_id \<Rightarrow> val list \<Rightarrow> error + LogicalResult \<times> OperationFolder \<times> val list" where
  "tryToFoldResults hook st i results =
     (case getOp st i of
        None \<Rightarrow> Inl AssertionFailed
      | Some op0 \<Rightarrow>
          (let (op, operandConstants) = foldInput st op0;
               st1 = setOp st i op
           in case hook op operandConstants of
                None \<Rightarrow> Inr (failure, st1, results)
              | Some (newOperands, newAttrs, foldResults) \<Rightarrow>
                  (let st2 = setOp st1 i (op\<lparr>operands := newOperands, attrs := newAttrs\<rparr>)
                   in if foldResults = [] then Inr (success, st2, results)
                      else if length foldResults \<noteq> length (resultTypes op) then Inl AssertionFailed
                      else (case materialize st2 i (zip foldResults (resultTypes op)) results of
                              Inl e \<Rightarrow> Inl e
                            | Inr (st3, results') \<Rightarrow> Inr (success, st3, results')))))"

text \<open>\<^verbatim>\<open>for i < results.size(): op->getResult(i)->replaceAllUsesWith(results[i])\<close>.\<close>

fun replaceResults :: "OperationFolder \<Rightarrow> op_id \<Rightarrow> nat \<Rightarrow> val list \<Rightarrow> OperationFolder" where
  "replaceResults st i k [] = st"
| "replaceResults st i k (r # rs) = replaceResults (replaceAllUsesWith st (OpResult i k) r) i (Suc k) rs"

text \<open>
  The public \<^verbatim>\<open>tryToFold(op, preReplaceAction)\<close>. The callback is the caller's code: it
  gets the folder as it is at the call and the operation, and acts on the caller's own
  state \<open>c\<close>.
\<close>

definition tryToFold ::
  "fold_hook \<Rightarrow> OperationFolder \<Rightarrow> op_id \<Rightarrow> (OperationFolder \<Rightarrow> op_id \<Rightarrow> 'c \<Rightarrow> 'c) option \<Rightarrow> 'c
     \<Rightarrow> error + LogicalResult \<times> OperationFolder \<times> 'c" where
  "tryToFold hook st i preReplaceAction c =
     (case getOp st i of
        None \<Rightarrow> Inl AssertionFailed
      | Some op \<Rightarrow>
          (case kind op of
             ConstantOp a \<Rightarrow>
               if use_empty st i op
               then (case notifyRemoval st i of
                       Inl e \<Rightarrow> Inl e
                     | Inr st1 \<Rightarrow> Inr (success, erase st1 i, c))
               else (case tryToUnify st i of
                       Inl e \<Rightarrow> Inl e
                     | Inr (r, st1) \<Rightarrow> Inr (r, st1, c))
           | OtherOp n \<Rightarrow>
               (case tryToFoldResults hook st i [] of
                  Inl e \<Rightarrow> Inl e
                | Inr (failure, st1, results) \<Rightarrow> Inr (failure, st1, c)
                | Inr (success, st1, results) \<Rightarrow>
                    (let c1 = (case preReplaceAction of Some f \<Rightarrow> f st1 i c | None \<Rightarrow> c)
                     in if results = [] then Inr (success, st1, c1)
                        else Inr (success, erase (replaceResults st1 i 0 results) i, c1)))))"

text \<open>
  The generic \<^verbatim>\<open>create\<close> helper of the header: build the operation with the caller's
  builder, then fold it into the caller's \<open>results\<close>.
\<close>

definition create ::
  "fold_hook \<Rightarrow> OperationFolder \<Rightarrow> nat \<Rightarrow> nat \<Rightarrow> operation \<Rightarrow> val list \<Rightarrow> error + OperationFolder \<times> val list" where
  "create hook st b p newOp results =
     (let i = nextOp st; st0 = createAt st b p newOp
      in case tryToFoldResults hook st0 i results of
           Inl e \<Rightarrow> Inl e
         | Inr (failure, st1, results') \<Rightarrow> Inr (st1, opResults i newOp)
         | Inr (success, st1, results') \<Rightarrow>
             if length (resultTypes newOp) \<noteq> 0 then Inr (erase st1 i, results')
             else Inr (st1, results'))"

text \<open>The one-result overload: \<^verbatim>\<open>results.front()\<close> of a fresh buffer.\<close>

definition createOneResult ::
  "fold_hook \<Rightarrow> OperationFolder \<Rightarrow> nat \<Rightarrow> nat \<Rightarrow> operation \<Rightarrow> error + OperationFolder \<times> val" where
  "createOneResult hook st b p newOp =
     (case create hook st b p newOp [] of
        Inl e \<Rightarrow> Inl e
      | Inr (st1, []) \<Rightarrow> Inl OutOfBounds
      | Inr (st1, r # _) \<Rightarrow> Inr (st1, r))"

section \<open>Well-formed folders\<close>



definition idsOk :: "OperationFolder \<Rightarrow> bool" where
  "idsOk st = (distinct (map fst (allOps st)) \<and> (\<forall>p \<in> set (allOps st). fst p < nextOp st))"




text \<open>
  The value that takes the place of \<open>v\<close> when the results \<open>k, k + 1, ...\<close> of operation \<open>i\<close>
  are replaced by \<open>results\<close>.
\<close>

definition replacement :: "op_id \<Rightarrow> nat \<Rightarrow> val list \<Rightarrow> val \<Rightarrow> val" where
  "replacement i k results v =
     (case v of
        OpResult j m \<Rightarrow> if j = i \<and> k \<le> m \<and> m < k + length results then results ! (m - k) else v
      | BlockArgument b m \<Rightarrow> v)"



section \<open>Example functions\<close>

definition i32 :: mtype where
  "i32 = IntegerType 32"

definition constantOp :: "attribute \<Rightarrow> mtype \<Rightarrow> operation" where
  "constantOp a t =
     \<lparr>kind = ConstantOp a, operands = [], resultTypes = [t], attrs = [], isCommutative = False\<rparr>"

definition addOp :: "val \<Rightarrow> val \<Rightarrow> operation" where
  "addOp x y =
     \<lparr>kind = OtherOp ''std.addi'', operands = [x, y], resultTypes = [i32], attrs = [],
      isCommutative = True\<rparr>"

definition returnOp :: "val list \<Rightarrow> operation" where
  "returnOp xs =
     \<lparr>kind = OtherOp ''std.return'', operands = xs, resultTypes = [], attrs = [],
      isCommutative = False\<rparr>"

text \<open>\<^verbatim>\<open>%10 = constant 3 : i32;  %11 = addi %10, %arg0 : i32;  return %11\<close>\<close>

definition exAdd :: OperationFolder where
  "exAdd =
     \<lparr>body = [[(10, constantOp (IntegerAttr i32 3) i32),
               (11, addOp (OpResult 10 0) (BlockArgument 0 0)),
               (12, returnOp [OpResult 11 0])]],
      nextOp = 13, uniquedConstants = Map.empty\<rparr>"

text \<open>The same function once the add has its constant on the right.\<close>

definition exAddSwapped :: OperationFolder where
  "exAddSwapped =
     \<lparr>body = [[(10, constantOp (IntegerAttr i32 3) i32),
               (11, addOp (BlockArgument 0 0) (OpResult 10 0)),
               (12, returnOp [OpResult 11 0])]],
      nextOp = 13, uniquedConstants = Map.empty\<rparr>"

text \<open>A fold hook that always declines.\<close>

definition noFold :: fold_hook where
  "noFold op operandConstants = None"

text \<open>The same function with its constant registered in the folder.\<close>

definition exAddCached :: OperationFolder where
  "exAddCached = exAdd\<lparr>uniquedConstants := [(IntegerAttr i32 3, i32) \<mapsto> 10]\<rparr>"

text \<open>A constant without uses, registered in the folder.\<close>

definition exDead :: OperationFolder where
  "exDead =
     \<lparr>body = [[(10, constantOp (IntegerAttr i32 3) i32), (11, returnOp [])]],
      nextOp = 12, uniquedConstants = [(IntegerAttr i32 3, i32) \<mapsto> 10]\<rparr>"

text \<open>A callback that records the operations it is called with.\<close>

definition logCall :: "OperationFolder \<Rightarrow> op_id \<Rightarrow> op_id list \<Rightarrow> op_id list" where
  "logCall st i calls = i # calls"

text \<open>
  \<^verbatim>\<open>%10 = constant 4 : i32;  %11 = constant 4 : i32;  %12 = addi %10, %11;  return %12\<close>,
  the first constant registered.
\<close>

definition exTwoConsts :: OperationFolder where
  "exTwoConsts =
     \<lparr>body = [[(10, constantOp (IntegerAttr i32 4) i32),
               (11, constantOp (IntegerAttr i32 4) i32),
               (12, addOp (OpResult 10 0) (OpResult 11 0)),
               (13, returnOp [OpResult 12 0])]],
      nextOp = 14, uniquedConstants = [(IntegerAttr i32 4, i32) \<mapsto> 10]\<rparr>"

text \<open>A fold hook that always reports an update in place.\<close>

definition inPlaceFold :: fold_hook where
  "inPlaceFold op operandConstants = Some (operands op, attrs op, [])"

text \<open>The two equal constants before any call.\<close>

definition exTwoFresh :: OperationFolder where
  "exTwoFresh = exTwoConsts\<lparr>uniquedConstants := Map.empty\<rparr>"




text \<open>The fold hook of an integer addition: both operands constant.\<close>

definition addFold :: fold_hook where
  "addFold op operandConstants =
     (case operandConstants of
        [Some (IntegerAttr t x), Some (IntegerAttr t' y)] \<Rightarrow>
          Some (operands op, attrs op, [FoldAttr (IntegerAttr t (x + y))])
      | _ \<Rightarrow> None)"

text \<open>\<^verbatim>\<open>%10 = constant 2;  %11 = constant 3;  %12 = addi %10, %11;  return %12\<close>\<close>

definition exSum :: OperationFolder where
  "exSum =
     \<lparr>body = [[(10, constantOp (IntegerAttr i32 2) i32),
               (11, constantOp (IntegerAttr i32 3) i32),
               (12, addOp (OpResult 10 0) (OpResult 11 0)),
               (13, returnOp [OpResult 12 0])]],
      nextOp = 14, uniquedConstants = Map.empty\<rparr>"

definition exTwoSums :: OperationFolder where
  "exTwoSums =
     \<lparr>body = [[(10, constantOp (IntegerAttr i32 2) i32),
               (11, constantOp (IntegerAttr i32 3) i32),
               (12, addOp (OpResult 10 0) (OpResult 11 0)),
               (13, addOp (OpResult 11 0) (OpResult 10 0)),
               (14, returnOp [OpResult 12 0, OpResult 13 0])]],
      nextOp = 15, uniquedConstants = Map.empty\<rparr>"




definition exSumHoisted :: OperationFolder where
  "exSumHoisted =
     \<lparr>body = [[(14, constantOp (IntegerAttr i32 5) i32),
               (10, constantOp (IntegerAttr i32 2) i32),
               (11, constantOp (IntegerAttr i32 3) i32),
               (12, addOp (OpResult 10 0) (OpResult 11 0)),
               (13, returnOp [OpResult 12 0])]],
      nextOp = 15, uniquedConstants = [(IntegerAttr i32 5, i32) \<mapsto> 14]\<rparr>"

definition exTwoSumsHoisted :: OperationFolder where
  "exTwoSumsHoisted =
     \<lparr>body = [[(15, constantOp (IntegerAttr i32 5) i32),
               (10, constantOp (IntegerAttr i32 2) i32),
               (11, constantOp (IntegerAttr i32 3) i32),
               (12, addOp (OpResult 10 0) (OpResult 11 0)),
               (13, addOp (OpResult 11 0) (OpResult 10 0)),
               (14, returnOp [OpResult 12 0, OpResult 13 0])]],
      nextOp = 16, uniquedConstants = [(IntegerAttr i32 5, i32) \<mapsto> 15]\<rparr>"


text \<open>
  Two equal constants of which the first has no use, and the function after each of the
  two calls made on it below.
\<close>

definition exDeadFirst :: OperationFolder where
  "exDeadFirst =
     \<lparr>body = [[(10, constantOp (IntegerAttr i32 4) i32),
               (11, constantOp (IntegerAttr i32 4) i32),
               (12, returnOp [OpResult 11 0])]],
      nextOp = 13, uniquedConstants = Map.empty\<rparr>"

definition exDeadFirstErased :: OperationFolder where
  "exDeadFirstErased =
     \<lparr>body = [[(11, constantOp (IntegerAttr i32 4) i32),
               (12, returnOp [OpResult 11 0])]],
      nextOp = 13, uniquedConstants = Map.empty\<rparr>"

definition exDeadFirstRegistered :: OperationFolder where
  "exDeadFirstRegistered =
     \<lparr>body = [[(11, constantOp (IntegerAttr i32 4) i32),
               (12, returnOp [OpResult 11 0])]],
      nextOp = 13, uniquedConstants = [(IntegerAttr i32 4, i32) \<mapsto> 11]\<rparr>"

section \<open>The graph primitives\<close>

lemma map_of_map_snd:
  "map_of (map (\<lambda>p. (fst p, f (fst p) (snd p))) xs) j = map_option (f j) (map_of xs j)"
  by (induction xs) auto

lemma allOps_updateOps:
  "allOps (updateOps f st) = map (\<lambda>p. (fst p, f (fst p) (snd p))) (allOps st)"
  by (simp add: allOps_def updateOps_def map_concat)

lemma getOp_updateOps: "getOp (updateOps f st) j = map_option (f j) (getOp st j)"
  by (simp add: getOp_def allOps_updateOps map_of_map_snd)

lemma getOp_setOp: "getOp (setOp st i op) j = (if j = i then map_option (\<lambda>_. op) (getOp st i) else getOp st j)"
  by (cases "getOp st j") (auto simp: setOp_def getOp_updateOps)

lemma getOp_replaceAllUsesWith:
  "getOp (replaceAllUsesWith st v w) j = map_option (replaceIn v w) (getOp st j)"
  by (simp add: replaceAllUsesWith_def getOp_updateOps)

lemma allOps_erase: "allOps (erase st i) = filter (\<lambda>p. fst p \<noteq> i) (allOps st)"
  by (simp add: allOps_def erase_def filter_concat)

lemma map_of_filter_fst:
  "map_of (filter (\<lambda>p. fst p \<noteq> i) xs) j = (if j = i then None else map_of xs j)"
  by (induction xs) auto

lemma getOp_erase: "getOp (erase st i) j = (if j = i then None else getOp st j)"
  by (simp add: getOp_def allOps_erase map_of_filter_fst)

lemma getOp_Some_body: "getOp st i = Some op \<Longrightarrow> body st \<noteq> []"
  by (auto simp: getOp_def allOps_def)

lemma body_move:
  assumes "getOp st i = Some op"
  shows "\<exists>b bs. map (filter (\<lambda>p. fst p \<noteq> i)) (body st) = b # bs \<and>
           body (moveConstantToEntryBlock st i) = ((i, op) # b) # bs"
proof -
  from assms have "body st \<noteq> []" by (rule getOp_Some_body)
  then obtain b bs where "map (filter (\<lambda>p. fst p \<noteq> i)) (body st) = b # bs"
    by (cases "body st") auto
  then show ?thesis using assms by (simp add: moveConstantToEntryBlock_def)
qed

lemma allOps_move:
  assumes "getOp st i = Some op"
  shows "allOps (moveConstantToEntryBlock st i) = (i, op) # filter (\<lambda>p. fst p \<noteq> i) (allOps st)"
proof -
  from body_move[OF assms] obtain b bs where
    h: "map (filter (\<lambda>p. fst p \<noteq> i)) (body st) = b # bs"
       "body (moveConstantToEntryBlock st i) = ((i, op) # b) # bs" by auto
  have "filter (\<lambda>p. fst p \<noteq> i) (allOps st) = concat (map (filter (\<lambda>p. fst p \<noteq> i)) (body st))"
    by (simp add: allOps_def filter_concat)
  with h show ?thesis by (simp add: allOps_def)
qed

lemma getOp_move:
  assumes "getOp st i = Some op"
  shows "getOp (moveConstantToEntryBlock st i) j = getOp st j"
  using assms by (auto simp: getOp_def allOps_move[OF assms] map_of_filter_fst)

lemma cache_move: "uniquedConstants (moveConstantToEntryBlock st i) = uniquedConstants st"
  by (simp add: moveConstantToEntryBlock_def split: option.splits list.splits)


lemma notifyRemoval_frame:
  "notifyRemoval st i = Inr st' \<Longrightarrow> body st' = body st \<and> nextOp st' = nextOp st"
  by (auto simp: notifyRemoval_def split: option.splits list.splits if_splits)

lemma kind_m_Constant: "kind op = ConstantOp a \<Longrightarrow> m_Constant op = Some a"
  by (simp add: m_Constant_def)

lemma cache_erase: "uniquedConstants (erase st i) = uniquedConstants st"
  by (simp add: erase_def)

lemma getOp_cache_update: "getOp (st\<lparr>uniquedConstants := m\<rparr>) j = getOp st j"
  by (simp add: getOp_def allOps_def)

lemma cache_updateOps: "uniquedConstants (updateOps f st) = uniquedConstants st"
  by (simp add: updateOps_def)

lemma nextOp_updateOps: "nextOp (updateOps f st) = nextOp st"
  by (simp add: updateOps_def)

lemma ids_updateOps: "map (map fst) (body (updateOps f st)) = map (map fst) (body st)"
  by (simp add: updateOps_def comp_def)

lemma cache_replaceAllUsesWith: "uniquedConstants (replaceAllUsesWith st v w) = uniquedConstants st"
  by (simp add: replaceAllUsesWith_def cache_updateOps)

lemma users_replaceAllUsesWith_self:
  "v \<noteq> w \<Longrightarrow> users (replaceAllUsesWith st v w) v = []"
  by (auto simp: users_def replaceAllUsesWith_def allOps_updateOps replaceIn_def filter_empty_conv)

lemma users_erase_empty: "users st v = [] \<Longrightarrow> users (erase st i) v = []"
  by (auto simp: users_def allOps_erase filter_empty_conv)

lemma getOp_mem:
  "distinct (map fst (allOps st)) \<Longrightarrow> (i, x) \<in> set (allOps st) \<Longrightarrow> getOp st i = Some x"
  by (simp add: getOp_def)

lemma updateOps_id:
  assumes "\<And>j x. (j, x) \<in> set (allOps st) \<Longrightarrow> f j x = x"
  shows "updateOps f st = st"
proof -
  have "map (map (\<lambda>p. (fst p, f (fst p) (snd p)))) (body st) = body st"
  proof (rule map_idI, rule map_idI)
    fix b p assume "b \<in> set (body st)" "p \<in> set b"
    then have "(fst p, snd p) \<in> set (allOps st)" by (auto simp: allOps_def)
    then show "(fst p, f (fst p) (snd p)) = p" using assms by (metis prod.collapse)
  qed
  then show ?thesis by (simp add: updateOps_def)
qed

lemma setOp_same:
  assumes "distinct (map fst (allOps st))" and "getOp st i = Some op"
  shows "setOp st i op = st"
  unfolding setOp_def
proof (rule updateOps_id)
  fix j x assume "(j, x) \<in> set (allOps st)"
  then have "getOp st j = Some x" using assms(1) by (rule getOp_mem[rotated])
  then show "(if j = i then op else x) = x" using assms(2) by auto
qed

lemma users_updateOps:
  assumes "\<And>j x. (j, x) \<in> set (allOps st) \<Longrightarrow> (v \<in> set (operands (f j x))) = (v \<in> set (operands x))"
  shows "users (updateOps f st) v = users st v"
proof -
  let ?g = "\<lambda>p. (fst p, f (fst p) (snd p))"
  let ?P = "\<lambda>p. v \<in> set (operands (snd p))"
  have "filter (?P \<circ> ?g) (allOps st) = filter ?P (allOps st)"
  proof (rule filter_cong[OF refl])
    fix p assume "p \<in> set (allOps st)"
    then have "(fst p, snd p) \<in> set (allOps st)" by simp
    from assms[OF this] show "(?P \<circ> ?g) p = ?P p" by simp
  qed
  moreover have "map fst (map ?g ys) = map fst ys" for ys by (induction ys) simp_all
  ultimately show ?thesis
    unfolding users_def allOps_updateOps filter_map by simp
qed

lemma users_setOp:
  assumes "distinct (map fst (allOps st))" and "getOp st i = Some op"
    and "set (operands op') = set (operands op)"
  shows "users (setOp st i op') v = users st v"
  unfolding setOp_def
proof (rule users_updateOps)
  fix j x assume "(j, x) \<in> set (allOps st)"
  then have "getOp st j = Some x" using assms(1) by (rule getOp_mem[rotated])
  then have "j = i \<Longrightarrow> x = op" using assms(2) by simp
  then show "(v \<in> set (operands (if j = i then op' else x))) = (v \<in> set (operands x))"
    by (cases "j = i") (simp_all add: assms(3))
qed

section \<open>The fold hook's input and the failure path\<close>

lemma foldInput_cases:
  "(\<exists>x y c. operands op = [x, y] \<and> isCommutative op \<and> m_ConstantValue st x = Some c \<and>
       m_ConstantValue st y = None \<and> foldInput st op = (op\<lparr>operands := [y, x]\<rparr>, [None, Some c])) \<or>
   (\<not> (\<exists>x y c. operands op = [x, y] \<and> isCommutative op \<and> m_ConstantValue st x = Some c \<and>
       m_ConstantValue st y = None) \<and> foldInput st op = (op, map (m_ConstantValue st) (operands op)))"
  by (auto simp: foldInput_def swapCommutative_def split: list.splits option.splits)

lemma tryToFoldResults_failure:
  assumes "getOp st i = Some op"
    and "tryToFoldResults hook st i results = Inr (failure, st', results')"
  shows "st' = setOp st i (fst (foldInput st op)) \<and> results' = results \<and>
         hook (fst (foldInput st op)) (snd (foldInput st op)) = None"
proof (cases "hook (fst (foldInput st op)) (snd (foldInput st op))")
  case None
  then show ?thesis using assms by (simp add: tryToFoldResults_def Let_def split_beta)
next
  case (Some r)
  obtain a b c where r: "r = (a, b, c)" by (cases r)
  show ?thesis using assms Some unfolding r
    by (simp add: tryToFoldResults_def Let_def split_beta split: if_splits sum.splits)
qed

lemma tryToFoldResults_declined:
  assumes "getOp st i = Some op"
    and "hook (fst (foldInput st op)) (snd (foldInput st op)) = None"
  shows "tryToFoldResults hook st i results = Inr (failure, setOp st i (fst (foldInput st op)), results)"
  using assms by (simp add: tryToFoldResults_def Let_def split_beta)

section \<open>Creating an operation\<close>

lemma insert_at_append:
  "\<exists>k. (take p x @ y # drop p x) @ rest = take k (x @ rest) @ y # drop k (x @ rest)"
proof (cases "p \<le> length x")
  case True
  then have "(take p x @ y # drop p x) @ rest = take p (x @ rest) @ y # drop p (x @ rest)" by simp
  then show ?thesis by (rule exI)
next
  case False
  then have "(take p x @ y # drop p x) @ rest = take (length x) (x @ rest) @ y # drop (length x) (x @ rest)"
    by simp
  then show ?thesis by (rule exI)
qed

lemma concat_insert_at:
  "b < length xs \<Longrightarrow>
   \<exists>k. concat (xs[b := take p (xs ! b) @ y # drop p (xs ! b)]) = take k (concat xs) @ y # drop k (concat xs)"
proof (induction xs arbitrary: b)
  case Nil
  then show ?case by simp
next
  case (Cons x xs)
  show ?case
  proof (cases b)
    case 0
    from insert_at_append[of p x y "concat xs"] show ?thesis unfolding 0 by simp
  next
    case (Suc b')
    with Cons.prems have "b' < length xs" by simp
    from Cons.IH[OF this] obtain k where
      k: "concat (xs[b' := take p (xs ! b') @ y # drop p (xs ! b')]) = take k (concat xs) @ y # drop k (concat xs)"
      by blast
    have "concat ((x # xs)[b := take p ((x # xs) ! b) @ y # drop p ((x # xs) ! b)]) =
          take (length x + k) (concat (x # xs)) @ y # drop (length x + k) (concat (x # xs))"
      using Suc k by simp
    then show ?thesis by (rule exI)
  qed
qed

lemma map_of_insert_at:
  "map_of (take k zs @ (n, x) # drop k zs) j =
     (if j = n then (case map_of (take k zs) n of None \<Rightarrow> Some x | Some y \<Rightarrow> Some y) else map_of zs j)"
proof -
  have "map_of zs j = map_of (take k zs @ drop k zs) j" by simp
  also have "\<dots> = (map_of (drop k zs) ++ map_of (take k zs)) j" by (simp only: map_of_append)
  finally have z: "map_of zs j = (map_of (drop k zs) ++ map_of (take k zs)) j" .
  show ?thesis
    by (simp add: z map_add_def split: option.splits)
qed

lemma map_of_take_None: "n \<notin> fst ` set zs \<Longrightarrow> map_of (take k zs) n = None"
proof -
  assume "n \<notin> fst ` set zs"
  moreover have "set (take k zs) \<subseteq> set zs" by (rule set_take_subset)
  ultimately have "n \<notin> fst ` set (take k zs)" by auto
  then show ?thesis by (simp add: map_of_eq_None_iff)
qed

lemma getOp_createAt:
  assumes "b < length (body st)" and "nextOp st \<notin> fst ` set (allOps st)"
  shows "getOp (createAt st b p op) j = (if j = nextOp st then Some op else getOp st j)"
proof -
  from concat_insert_at[OF assms(1), of p "(nextOp st, op)"] obtain k where
    "allOps (createAt st b p op) = take k (allOps st) @ (nextOp st, op) # drop k (allOps st)"
    using assms(1) by (auto simp: allOps_def createAt_def)
  then have "getOp (createAt st b p op) j =
      map_of (take k (allOps st) @ (nextOp st, op) # drop k (allOps st)) j"
    by (simp only: getOp_def)
  also have "\<dots> = (if j = nextOp st then Some op else map_of (allOps st) j)"
    unfolding map_of_insert_at map_of_take_None[OF assms(2), of k] by simp
  finally show ?thesis by (simp add: getOp_def)
qed

lemma tryToFoldResults_inplace:
  assumes "getOp st i = Some op"
    and "hook (fst (foldInput st op)) (snd (foldInput st op)) = Some (newOperands, newAttrs, [])"
  shows "tryToFoldResults hook st i results =
           Inr (success,
                setOp (setOp st i (fst (foldInput st op))) i
                  ((fst (foldInput st op))\<lparr>operands := newOperands, attrs := newAttrs\<rparr>),
                results)"
  using assms by (simp add: tryToFoldResults_def Let_def split_beta)

lemma tryToFoldResults_success_hook:
  assumes "getOp st i = Some op"
    and "tryToFoldResults hook st i results = Inr (success, st', results')"
  shows "hook (fst (foldInput st op)) (snd (foldInput st op)) \<noteq> None"
proof
  assume n: "hook (fst (foldInput st op)) (snd (foldInput st op)) = None"
  from tryToFoldResults_declined[where hook=hook, OF assms(1) n, of results] assms(2) show False by simp
qed

section \<open>The example functions evaluated\<close>

lemma getOp_exAdd:
  "getOp exAdd 10 = Some (constantOp (IntegerAttr i32 3) i32)"
  "getOp exAdd 11 = Some (addOp (OpResult 10 0) (BlockArgument 0 0))"
  by (simp_all add: exAdd_def getOp_def allOps_def)

lemma foldInput_exAdd:
  "foldInput exAdd (addOp (OpResult 10 0) (BlockArgument 0 0)) =
     (addOp (BlockArgument 0 0) (OpResult 10 0), [None, Some (IntegerAttr i32 3)])"
  by (simp add: foldInput_def swapCommutative_def exAdd_def getOp_def allOps_def
      m_ConstantValue_def m_Constant_def constantOp_def addOp_def)

lemma setOp_exAdd: "setOp exAdd 11 (addOp (BlockArgument 0 0) (OpResult 10 0)) = exAddSwapped"
  by (simp add: setOp_def updateOps_def exAdd_def exAddSwapped_def)

lemma tryToFold_exAdd: "tryToFold noFold exAdd 11 None () = Inr (failure, exAddSwapped, ())"
proof -
  have k: "kind (addOp (OpResult 10 0) (BlockArgument 0 0)) = OtherOp ''std.addi''"
    by (simp add: addOp_def)
  have "tryToFoldResults noFold exAdd 11 [] = Inr (failure, exAddSwapped, [])"
    by (simp add: tryToFoldResults_def getOp_exAdd foldInput_exAdd noFold_def setOp_exAdd)
  then show ?thesis
    by (simp add: tryToFold_def getOp_exAdd k)
qed

lemma getOp_exDead: "getOp exDead 10 = Some (constantOp (IntegerAttr i32 3) i32)"
  by (simp add: exDead_def getOp_def allOps_def)

lemma use_empty_exDead: "use_empty exDead 10 (constantOp (IntegerAttr i32 3) i32)"
  by (simp add: use_empty_def opResults_def users_def exDead_def allOps_def constantOp_def returnOp_def)

lemma getOp_exTwoConsts:
  "getOp exTwoConsts 11 = Some (constantOp (IntegerAttr i32 4) i32)"
  "getOp exTwoConsts 12 = Some (addOp (OpResult 10 0) (OpResult 11 0))"
  by (simp_all add: exTwoConsts_def getOp_def allOps_def)

lemma used_exTwoConsts: "\<not> use_empty exTwoConsts 11 (constantOp (IntegerAttr i32 4) i32)"
  by (simp add: use_empty_def opResults_def users_def exTwoConsts_def allOps_def constantOp_def
      addOp_def returnOp_def)

section \<open>The invariant and the primitives\<close>





lemma insertBefore_filter:
  "n \<notin> fst ` set blk \<Longrightarrow> filter (\<lambda>p. fst p \<noteq> n) (insertBefore a (n, x) blk) = blk"
  by (induction blk) (auto simp: filter_id_conv)

lemma insertBefore_set: "set (insertBefore a new blk) \<subseteq> insert new (set blk)"
  by (induction blk) auto

lemma insertBefore_mem: "a \<in> fst ` set blk \<Longrightarrow> new \<in> set (insertBefore a new blk)"
  by (induction blk) auto

lemma map_of_unique:
  "n \<in> fst ` set xs \<Longrightarrow> (\<And>y. (n, y) \<in> set xs \<Longrightarrow> y = x) \<Longrightarrow> map_of xs n = Some x"
  by (induction xs) (auto split: if_splits)

lemma getOp_createBefore_new:
  assumes "getOp st i = Some op" and "nextOp st \<notin> fst ` set (allOps st)"
  shows "getOp (createBefore st i x) (nextOp st) = Some x"
proof -
  let ?n = "nextOp st"
  let ?xs = "allOps (createBefore st i x)"
  from assms(1) have "i \<in> fst ` set (allOps st)"
    by (metis getOp_def map_of_eq_None_iff option.distinct(1))
  then obtain blk where blk: "blk \<in> set (body st)" "i \<in> fst ` set blk"
    by (auto simp: allOps_def)
  then have "(?n, x) \<in> set (insertBefore i (?n, x) blk)" by (intro insertBefore_mem)
  with blk(1) have m: "(?n, x) \<in> set ?xs" by (auto simp: allOps_def createBefore_def)
  have u: "y = x" if "(?n, y) \<in> set ?xs" for y
  proof -
    from that obtain blk' where b': "blk' \<in> set (body st)" "(?n, y) \<in> set (insertBefore i (?n, x) blk')"
      by (auto simp: allOps_def createBefore_def)
    with insertBefore_set[of i "(?n, x)" blk'] have "(?n, y) = (?n, x) \<or> (?n, y) \<in> set blk'" by auto
    moreover have "(?n, y) \<notin> set blk'" using assms(2) b'(1) by (force simp: allOps_def)
    ultimately show ?thesis by simp
  qed
  from m have "?n \<in> fst ` set ?xs" by force
  from map_of_unique[OF this u] show ?thesis by (simp add: getOp_def)
qed

lemma hoist_new_constant:
  assumes "getOp st i = Some op" and "nextOp st \<notin> fst ` set (allOps st)"
  shows "moveConstantToEntryBlock ((createBefore st i x)\<lparr>uniquedConstants := m\<rparr>) (nextOp st) =
           st\<lparr>body := ((nextOp st, x) # hd (body st)) # tl (body st),
              nextOp := Suc (nextOp st), uniquedConstants := m\<rparr>"
proof -
  let ?n = "nextOp st"
  let ?st1 = "(createBefore st i x)\<lparr>uniquedConstants := m\<rparr>"
  have g: "getOp ?st1 ?n = Some x"
    using getOp_createBefore_new[OF assms] by (simp add: getOp_cache_update)
  have "map (filter (\<lambda>p. fst p \<noteq> ?n)) (body ?st1) = body st"
  proof -
    have "filter (\<lambda>p. fst p \<noteq> ?n) (insertBefore i (?n, x) blk) = blk" if "blk \<in> set (body st)" for blk
      using that assms(2) by (intro insertBefore_filter) (force simp: allOps_def)
    then show ?thesis by (simp add: createBefore_def map_idI)
  qed
  moreover have "body st \<noteq> []" using assms(1) by (rule getOp_Some_body)
  ultimately show ?thesis using g
    by (cases "body st") (simp_all add: moveConstantToEntryBlock_def createBefore_def)
qed

lemma idsOk_fresh: "idsOk st \<Longrightarrow> nextOp st \<notin> fst ` set (allOps st)"
  by (auto simp: idsOk_def)

lemma getOp_in_allOps: "getOp st i = Some op \<Longrightarrow> (i, op) \<in> set (allOps st)"
  by (simp add: getOp_def map_of_SomeD)





lemma idsOk_updateOps: "idsOk (updateOps f st) = idsOk st"
  by (simp add: idsOk_def allOps_updateOps comp_def nextOp_updateOps)







text \<open>The folder after a new constant was created and hoisted.\<close>

lemma allOps_pushed:
  "body st \<noteq> [] \<Longrightarrow>
   allOps (st\<lparr>body := (p # hd (body st)) # tl (body st), nextOp := n, uniquedConstants := m\<rparr>) = p # allOps st"
  by (cases "body st") (simp_all add: allOps_def)


lemma idsOk_pushed:
  assumes "idsOk st" and "body st \<noteq> []"
  shows "idsOk (st\<lparr>body := ((nextOp st, x) # hd (body st)) # tl (body st), nextOp := Suc (nextOp st),
                  uniquedConstants := m\<rparr>)"
  using assms(1) by (auto simp: idsOk_def allOps_pushed[OF assms(2)] less_Suc_eq)









section \<open>The invariant and the folder's operations\<close>









lemma getOp_pushed:
  assumes "body st \<noteq> []"
  shows "getOp (st\<lparr>body := ((n, x) # hd (body st)) # tl (body st), nextOp := n', uniquedConstants := m\<rparr>) j =
           (if j = n then Some x else getOp st j)"
  by (simp add: getOp_def allOps_pushed[OF assms])

lemma getOp_bound: "idsOk st \<Longrightarrow> getOp st j = Some op \<Longrightarrow> j < nextOp st"
  using getOp_in_allOps[of st j op] by (auto simp: idsOk_def)


lemma replacement_Nil: "replacement i k [] v = v"
  by (cases v) (auto simp: replacement_def)

lemma replacement_Cons:
  assumes "\<And>m. r \<noteq> OpResult i m"
  shows "replacement i (Suc k) rs (if v = OpResult i k then r else v) = replacement i k (r # rs) v"
proof (cases v)
  case (OpResult j m)
  show ?thesis
  proof (cases "j = i \<and> m = k")
    case True
    have "replacement i (Suc k) rs r = r"
    proof (cases r)
      case (OpResult j' m')
      with assms[of m'] have "j' \<noteq> i" by auto
      then show ?thesis using OpResult by (simp add: replacement_def)
    next
      case (BlockArgument b' m')
      then show ?thesis by (simp add: replacement_def)
    qed
    then have "replacement i (Suc k) rs (if v = OpResult i k then r else v) = r"
      using True OpResult by simp
    then show ?thesis using True OpResult by (simp add: replacement_def)
  next
    case False
    then have ne: "v \<noteq> OpResult i k" using OpResult by auto
    show ?thesis
    proof (cases "j = i \<and> Suc k \<le> m \<and> m < Suc k + length rs")
      case True
      then have "m - k = Suc (m - Suc k)" by arith
      then show ?thesis using True ne OpResult by (simp add: replacement_def)
    next
      case F2: False
      then show ?thesis using False ne OpResult by (auto simp: replacement_def)
    qed
  qed
next
  case (BlockArgument b m)
  then show ?thesis by (simp add: replacement_def)
qed

lemma getOp_replaceResults:
  assumes "\<And>r m. r \<in> set rs \<Longrightarrow> r \<noteq> OpResult i m"
  shows "getOp (replaceResults st i k rs) j =
           map_option (\<lambda>op. op\<lparr>operands := map (replacement i k rs) (operands op)\<rparr>) (getOp st j)"
  using assms
proof (induction rs arbitrary: st k)
  case Nil
  have "(\<lambda>op::operation. op\<lparr>operands := map (replacement i k []) (operands op)\<rparr>) = (\<lambda>op. op)"
    by (rule ext) (simp add: replacement_Nil[abs_def])
  then show ?case by (simp add: option.map_ident)
next
  case (Cons r rs)
  have r: "\<And>m. r \<noteq> OpResult i m" using Cons.prems by simp
  have "getOp (replaceResults st i k (r # rs)) j =
        map_option (\<lambda>op. op\<lparr>operands := map (replacement i (Suc k) rs) (operands op)\<rparr>)
          (map_option (replaceIn (OpResult i k) r) (getOp st j))"
    using Cons.IH[of "replaceAllUsesWith st (OpResult i k) r" "Suc k"] Cons.prems
    by (simp add: getOp_replaceAllUsesWith)
  also have "\<dots> = map_option (\<lambda>op. op\<lparr>operands := map (replacement i k (r # rs)) (operands op)\<rparr>) (getOp st j)"
    by (cases "getOp st j") (simp_all add: replaceIn_def comp_def replacement_Cons[OF r])
  finally show ?case .
qed


lemma cache_replaceResults: "uniquedConstants (replaceResults st i k rs) = uniquedConstants st"
  by (induction rs arbitrary: st k) (simp_all add: cache_replaceAllUsesWith)


lemma foldInput_kind:
  "kind (fst (foldInput st op)) = kind op \<and> resultTypes (fst (foldInput st op)) = resultTypes op"
  using foldInput_cases[of op st] by auto


lemma nextOp_setOp: "nextOp (setOp st i op) = nextOp st"
  by (simp add: setOp_def nextOp_updateOps)


lemma notifyRemoval_result:
  assumes "getOp st i = Some op" and "kind op = ConstantOp a" and "resultTypes op = t # ts"
  shows "notifyRemoval st i =
           Inr (if uniquedConstants st (a, t) = Some i
                then st\<lparr>uniquedConstants := (uniquedConstants st)((a, t) := None)\<rparr> else st)"
  using assms by (simp add: notifyRemoval_def kind_m_Constant)

lemma tryToFold_dead:
  assumes "getOp st i = Some op" and "kind op = ConstantOp a" and "resultTypes op = t # ts"
    and "use_empty st i op"
  shows "tryToFold hook st i preReplaceAction c =
           Inr (success,
                erase (if uniquedConstants st (a, t) = Some i
                       then st\<lparr>uniquedConstants := (uniquedConstants st)((a, t) := None)\<rparr> else st) i, c)"
  using assms by (simp add: tryToFold_def notifyRemoval_result[OF assms(1,2,3)])

lemma tryToFold_used:
  assumes "getOp st i = Some op" and "kind op = ConstantOp a" and "resultTypes op = t # ts"
    and "\<not> use_empty st i op"
  shows "tryToFold hook st i preReplaceAction c =
           (case uniquedConstants st (a, t) of
              None \<Rightarrow> Inr (failure,
                  moveConstantToEntryBlock (st\<lparr>uniquedConstants := (uniquedConstants st)((a, t) \<mapsto> i)\<rparr>) i, c)
            | Some k \<Rightarrow> if k = i then Inr (failure, st, c)
                else Inr (success, erase (replaceAllUsesWith st (OpResult i 0) (OpResult k 0)) i, c))"
  using assms by (simp add: tryToFold_def tryToUnify_def kind_m_Constant split: option.splits)

lemma tryToFold_other:
  assumes "getOp st i = Some op" and "kind op = OtherOp n"
  shows "tryToFold hook st i preReplaceAction c =
           (case tryToFoldResults hook st i [] of
              Inl e \<Rightarrow> Inl e
            | Inr (failure, st1, results) \<Rightarrow> Inr (failure, st1, c)
            | Inr (success, st1, results) \<Rightarrow>
                (let c1 = (case preReplaceAction of Some f \<Rightarrow> f st1 i c | None \<Rightarrow> c)
                 in if results = [] then Inr (success, st1, c1)
                    else Inr (success, erase (replaceResults st1 i 0 results) i, c1)))"
  using assms by (simp add: tryToFold_def)






section \<open>More example functions evaluated\<close>




section \<open>Resolving a key twice\<close>

lemma cache_setOp: "uniquedConstants (setOp st i op) = uniquedConstants st"
  by (simp add: setOp_def cache_updateOps)

lemma ids_setOp: "map (map fst) (body (setOp st i op)) = map (map fst) (body st)"
  by (simp add: setOp_def ids_updateOps)

lemma replaceIn_unused:
  assumes "users st v = []" and "getOp st j = Some x"
  shows "replaceIn v w x = x"
proof -
  have "(j, x) \<in> set (allOps st)" using assms(2) by (rule getOp_in_allOps)
  with assms(1) have "v \<notin> set (operands x)"
    by (auto simp: users_def filter_empty_conv)
  then have "map (\<lambda>y. if y = v then w else y) (operands x) = operands x"
    by (intro map_idI) auto
  then show ?thesis by (simp add: replaceIn_def)
qed

lemma use_empty_first:
  "use_empty st i op \<Longrightarrow> resultTypes op = t # ts \<Longrightarrow> users st (OpResult i 0) = []"
proof -
  assume u: "use_empty st i op" and r: "resultTypes op = t # ts"
  have "0 \<in> set [0..<length (resultTypes op)]" using r by simp
  then have "OpResult i 0 \<in> OpResult i ` set [0..<length (resultTypes op)]" by (rule imageI)
  then have "OpResult i 0 \<in> set (opResults i op)" unfolding opResults_def set_map .
  with u show ?thesis by (simp add: use_empty_def list_all_iff)
qed

text \<open>The second of two constants with one key.\<close>

lemma tryToFold_duplicate_constant:
  assumes "getOp st i = Some op" and "kind op = ConstantOp a" and "resultTypes op = t # ts"
    and "uniquedConstants st (a, t) = Some k" and "k \<noteq> i"
  shows "\<exists>st'. tryToFold hook st i preReplaceAction c = Inr (success, st', c) \<and>
           uniquedConstants st' = uniquedConstants st \<and> getOp st' i = None \<and>
           (\<forall>j x. j \<noteq> i \<and> getOp st j = Some x \<longrightarrow>
              getOp st' j = Some (replaceIn (OpResult i 0) (OpResult k 0) x))"
proof (cases "use_empty st i op")
  case True
  have u: "users st (OpResult i 0) = []" using True assms(3) by (rule use_empty_first)
  have "tryToFold hook st i preReplaceAction c = Inr (success, erase st i, c)"
    using tryToFold_dead[OF assms(1,2,3) True, of hook preReplaceAction c] assms(4,5) by simp
  moreover have "getOp (erase st i) j = Some (replaceIn (OpResult i 0) (OpResult k 0) x)"
    if "j \<noteq> i" "getOp st j = Some x" for j x
    using that replaceIn_unused[OF u that(2)] by (simp add: getOp_erase)
  ultimately show ?thesis by (auto simp: cache_erase getOp_erase)
next
  case False
  have "tryToFold hook st i preReplaceAction c =
          Inr (success, erase (replaceAllUsesWith st (OpResult i 0) (OpResult k 0)) i, c)"
    using tryToFold_used[OF assms(1,2,3) False, of hook preReplaceAction c] assms(4,5) by simp
  then show ?thesis
    by (simp add: cache_erase cache_replaceAllUsesWith getOp_erase getOp_replaceAllUsesWith)
qed

text \<open>A fold with one result, an attribute.\<close>

lemma tryToFoldResults_attr:
  assumes "getOp st i = Some op" and "resultTypes op = [t]"
    and "hook (fst (foldInput st op)) (snd (foldInput st op)) = Some (newOperands, newAttrs, [FoldAttr a])"
  shows "\<exists>st1 k. tryToFoldResults hook st i results = Inr (success, st1, results @ [OpResult k 0]) \<and>
           uniquedConstants st1 (a, t) = Some k \<and>
           (\<forall>k'. uniquedConstants st (a, t) = Some k' \<longrightarrow>
              k = k' \<and> uniquedConstants st1 = uniquedConstants st \<and> nextOp st1 = nextOp st \<and>
              map (map fst) (body st1) = map (map fst) (body st))"
proof -
  let ?op1 = "fst (foldInput st op)"
  let ?stb = "setOp (setOp st i ?op1) i (?op1\<lparr>operands := newOperands, attrs := newAttrs\<rparr>)"
  have rt: "resultTypes ?op1 = [t]" using foldInput_kind[of st op] assms(2) by simp
  have t: "tryToFoldResults hook st i results =
          (case materialize ?stb i [(FoldAttr a, t)] results of
             Inl e \<Rightarrow> Inl e | Inr (st3, results') \<Rightarrow> Inr (success, st3, results'))"
    using assms(1,3) rt by (simp add: tryToFoldResults_def Let_def split_beta)
  have cb: "uniquedConstants ?stb = uniquedConstants st" by (simp add: cache_setOp)
  show ?thesis
  proof (cases "uniquedConstants st (a, t)")
    case None
    then show ?thesis using t cb by (simp add: Let_def cache_move)
  next
    case (Some k)
    then have "tryToFoldResults hook st i results = Inr (success, ?stb, results @ [OpResult k 0])"
      using t cb by simp
    then show ?thesis using Some cb by (simp add: nextOp_setOp ids_setOp)
  qed
qed

section \<open>The folds of the example functions\<close>




lemma tryToFoldResults_exSum:
  "tryToFoldResults addFold exSum 12 [] = Inr (success, exSumHoisted, [OpResult 14 0])"
  by (simp add: tryToFoldResults_def foldInput_def swapCommutative_def addFold_def
      m_ConstantValue_def m_Constant_def setOp_def updateOps_def createBefore_def
      moveConstantToEntryBlock_def
      exSum_def exSumHoisted_def getOp_def allOps_def constantOp_def addOp_def returnOp_def i32_def)

lemma getOp_exTwoFresh:
  "getOp exTwoFresh 11 = Some (constantOp (IntegerAttr i32 4) i32)"
  "getOp exTwoFresh 10 = Some (constantOp (IntegerAttr i32 4) i32)"
  by (simp_all add: exTwoFresh_def exTwoConsts_def getOp_def allOps_def)

lemma used_exTwoFresh: "\<not> use_empty exTwoFresh 11 (constantOp (IntegerAttr i32 4) i32)"
  by (simp add: use_empty_def opResults_def users_def exTwoFresh_def exTwoConsts_def allOps_def
      constantOp_def addOp_def returnOp_def)

lemma getOp_exTwoSums:
  "getOp exTwoSums 12 = Some (addOp (OpResult 10 0) (OpResult 11 0))"
  "getOp exTwoSumsHoisted 13 = Some (addOp (OpResult 11 0) (OpResult 10 0))"
  by (simp_all add: exTwoSums_def exTwoSumsHoisted_def getOp_def allOps_def)

lemma addFold_exTwoSums:
  "addFold (fst (foldInput exTwoSums (addOp (OpResult 10 0) (OpResult 11 0))))
           (snd (foldInput exTwoSums (addOp (OpResult 10 0) (OpResult 11 0)))) =
     Some ([OpResult 10 0, OpResult 11 0], [], [FoldAttr (IntegerAttr i32 5)])"
  "addFold (fst (foldInput exTwoSumsHoisted (addOp (OpResult 11 0) (OpResult 10 0))))
           (snd (foldInput exTwoSumsHoisted (addOp (OpResult 11 0) (OpResult 10 0)))) =
     Some ([OpResult 11 0, OpResult 10 0], [], [FoldAttr (IntegerAttr i32 5)])"
  by (simp_all add: foldInput_def swapCommutative_def addFold_def m_ConstantValue_def m_Constant_def
      exTwoSums_def exTwoSumsHoisted_def getOp_def allOps_def constantOp_def addOp_def i32_def)

lemma tryToFoldResults_exTwoSums:
  "tryToFoldResults addFold exTwoSums 12 [] = Inr (success, exTwoSumsHoisted, [OpResult 15 0])"
  by (simp add: tryToFoldResults_def foldInput_def swapCommutative_def addFold_def
      m_ConstantValue_def m_Constant_def setOp_def updateOps_def createBefore_def
      moveConstantToEntryBlock_def
      exTwoSums_def exTwoSumsHoisted_def getOp_def allOps_def constantOp_def addOp_def returnOp_def
      i32_def)

section \<open>Fold outcomes and the map of uniqued constants\<close>

lemma cache_createBefore: "uniquedConstants (createBefore st a op) = uniquedConstants st"
  by (simp add: createBefore_def)

lemma take_snoc_prefix:
  assumes "take (length (xs @ [x])) ys = xs @ [x]"
  shows "take (length xs) ys = xs \<and> ys ! length xs = x"
proof -
  have "ys = take (length (xs @ [x])) ys @ drop (length (xs @ [x])) ys" by simp
  with assms have "ys = xs @ x # drop (length (xs @ [x])) ys" by simp
  then obtain zs where z: "ys = xs @ x # zs" ..
  show ?thesis unfolding z by simp
qed

lemma materialize_results:
  assumes "materialize st i frs results = Inr (st', results')"
  shows "length results' = length results + length frs \<and> take (length results) results' = results \<and>
         (\<forall>key c. uniquedConstants st key = Some c \<longrightarrow> uniquedConstants st' key = Some c) \<and>
         (\<forall>k a t. k < length frs \<and> frs ! k = (FoldAttr a, t) \<longrightarrow>
            (\<exists>c. results' ! (length results + k) = OpResult c 0 \<and> uniquedConstants st' (a, t) = Some c))"
  using assms
proof (induction st i frs results rule: materialize.induct)
  case (1 st i results)
  then show ?case by simp
next
  case (2 st i t rest results)
  then show ?case by simp
next
  case (3 st i repl t rest results)
  from "3.prems" have m: "materialize st i rest (results @ [repl]) = Inr (st', results')" by simp
  from "3.IH"[OF m] have ih:
    "length results' = length (results @ [repl]) + length rest"
    "take (length (results @ [repl])) results' = results @ [repl]"
    "\<forall>key c. uniquedConstants st key = Some c \<longrightarrow> uniquedConstants st' key = Some c"
    "\<forall>k a t. k < length rest \<and> rest ! k = (FoldAttr a, t) \<longrightarrow>
        (\<exists>c. results' ! (length (results @ [repl]) + k) = OpResult c 0 \<and> uniquedConstants st' (a, t) = Some c)"
    by blast+
  have tk: "take (length results) results' = results"
    using take_snoc_prefix[OF ih(2)] by simp
  have at: "\<exists>c. results' ! (length results + k) = OpResult c 0 \<and> uniquedConstants st' (a, t') = Some c"
    if "k < length ((FoldValue repl, t) # rest)" "((FoldValue repl, t) # rest) ! k = (FoldAttr a, t')" for k a t'
  proof (cases k)
    case 0
    with that show ?thesis by simp
  next
    case (Suc k')
    with that ih(4) show ?thesis by simp
  qed
  show ?case using ih(1,3) tk at by simp
next
  case (4 st i attrRepl t rest results)
  show ?case
  proof (cases "uniquedConstants st (attrRepl, t)")
    case (Some c0)
    with "4.prems" have m: "materialize st i rest (results @ [OpResult c0 0]) = Inr (st', results')"
      by simp
    from "4.IH"(2)[OF Some m] have ih:
      "length results' = length (results @ [OpResult c0 0]) + length rest"
      "take (length (results @ [OpResult c0 0])) results' = results @ [OpResult c0 0]"
      "\<forall>key c. uniquedConstants st key = Some c \<longrightarrow> uniquedConstants st' key = Some c"
      "\<forall>k a t. k < length rest \<and> rest ! k = (FoldAttr a, t) \<longrightarrow>
          (\<exists>c. results' ! (length (results @ [OpResult c0 0]) + k) = OpResult c 0 \<and> uniquedConstants st' (a, t) = Some c)"
      by blast+
    have n: "results' ! length results = OpResult c0 0"
      using take_snoc_prefix[OF ih(2)] by simp
    have tk: "take (length results) results' = results"
      using take_snoc_prefix[OF ih(2)] by simp
    have at: "\<exists>c. results' ! (length results + k) = OpResult c 0 \<and> uniquedConstants st' (a, t') = Some c"
      if "k < length ((FoldAttr attrRepl, t) # rest)" "((FoldAttr attrRepl, t) # rest) ! k = (FoldAttr a, t')" for k a t'
    proof (cases k)
      case 0
      with that have "a = attrRepl" "t' = t" by simp_all
      then show ?thesis using 0 n ih(3) Some by simp
    next
      case (Suc k')
      with that ih(4) show ?thesis by simp
    qed
    show ?thesis using ih(1,3) tk at by simp
  next
    case None
    let ?K = "\<lparr>kind = ConstantOp attrRepl, operands = [], resultTypes = [t], attrs = [], isCommutative = False\<rparr>"
    let ?st3 = "moveConstantToEntryBlock
               ((createBefore st i ?K)\<lparr>uniquedConstants :=
                   (uniquedConstants (createBefore st i ?K))((attrRepl, t) \<mapsto> nextOp st)\<rparr>) (nextOp st)"
    have c3: "uniquedConstants ?st3 = (uniquedConstants st)((attrRepl, t) \<mapsto> nextOp st)"
      by (simp add: cache_move cache_createBefore)
    from "4.prems" None have m: "materialize ?st3 i rest (results @ [OpResult (nextOp st) 0]) = Inr (st', results')"
      by (simp add: Let_def)
    from "4.IH"(1)[OF None refl refl refl refl m] have ih:
      "length results' = length (results @ [OpResult (nextOp st) 0]) + length rest"
      "take (length (results @ [OpResult (nextOp st) 0])) results' = results @ [OpResult (nextOp st) 0]"
      "\<forall>key c. uniquedConstants ?st3 key = Some c \<longrightarrow> uniquedConstants st' key = Some c"
      "\<forall>k a t. k < length rest \<and> rest ! k = (FoldAttr a, t) \<longrightarrow>
          (\<exists>c. results' ! (length (results @ [OpResult (nextOp st) 0]) + k) = OpResult c 0 \<and> uniquedConstants st' (a, t) = Some c)"
      by blast+
    have mono: "\<forall>key c. uniquedConstants st key = Some c \<longrightarrow> uniquedConstants st' key = Some c"
    proof (intro allI impI)
      fix key c assume k: "uniquedConstants st key = Some c"
      with None have "key \<noteq> (attrRepl, t)" by auto
      with k have "uniquedConstants ?st3 key = Some c" by (simp add: c3)
      with ih(3) show "uniquedConstants st' key = Some c" by blast
    qed
    have new: "uniquedConstants st' (attrRepl, t) = Some (nextOp st)"
      using ih(3) by (simp add: c3)
    have n: "results' ! length results = OpResult (nextOp st) 0"
      using take_snoc_prefix[OF ih(2)] by simp
    have tk: "take (length results) results' = results"
      using take_snoc_prefix[OF ih(2)] by simp
    have at: "\<exists>c. results' ! (length results + k) = OpResult c 0 \<and> uniquedConstants st' (a, t') = Some c"
      if "k < length ((FoldAttr attrRepl, t) # rest)" "((FoldAttr attrRepl, t) # rest) ! k = (FoldAttr a, t')" for k a t'
    proof (cases k)
      case 0
      with that have "a = attrRepl" "t' = t" by simp_all
      then show ?thesis using 0 n new by simp
    next
      case (Suc k')
      with that ih(4) show ?thesis by simp
    qed
    show ?thesis using ih(1) mono tk at by simp
  qed
qed

lemma tryToFoldResults_attr_position:
  assumes "getOp st i = Some op"
    and "hook (fst (foldInput st op)) (snd (foldInput st op)) = Some (newOperands, newAttrs, foldResults)"
    and "tryToFoldResults hook st i results = Inr (r, st1, results')"
    and "k < length foldResults" and "foldResults ! k = FoldAttr a"
  shows "(\<exists>c. results' ! (length results + k) = OpResult c 0 \<and>
              uniquedConstants st1 (a, resultTypes op ! k) = Some c) \<and>
         (\<forall>key c. uniquedConstants st key = Some c \<longrightarrow> uniquedConstants st1 key = Some c)"
proof -
  let ?op1 = "fst (foldInput st op)"
  let ?stb = "setOp (setOp st i ?op1) i (?op1\<lparr>operands := newOperands, attrs := newAttrs\<rparr>)"
  have rt: "resultTypes ?op1 = resultTypes op" using foldInput_kind[of st op] by simp
  have ne: "foldResults \<noteq> []" using assms(4) by auto
  from assms(1,2,3) ne have len: "length foldResults = length (resultTypes op)"
    and m: "materialize ?stb i (zip foldResults (resultTypes op)) results = Inr (st1, results')"
    by (auto simp: tryToFoldResults_def Let_def split_beta rt split: if_splits sum.splits)
  have z: "k < length (zip foldResults (resultTypes op))"
    "zip foldResults (resultTypes op) ! k = (FoldAttr a, resultTypes op ! k)"
    using assms(4,5) len by simp_all
  have cb: "uniquedConstants ?stb = uniquedConstants st" by (simp add: cache_setOp)
  from materialize_results[OF m] z cb show ?thesis by auto
qed

text \<open>What a call on a constant leaves of it and of the other operations.\<close>

lemma tryToFold_constant_survivor:
  assumes "getOp st i = Some op" and "kind op = ConstantOp a" and "resultTypes op = t # ts"
  shows "\<exists>r st'. tryToFold hook st i preReplaceAction c = Inr (r, st', c) \<and>
           (getOp st' i \<noteq> None \<longrightarrow> uniquedConstants st' (a, t) = Some i) \<and>
           (\<forall>j x. j \<noteq> i \<and> getOp st j = Some x \<longrightarrow>
              (\<exists>x'. getOp st' j = Some x' \<and> kind x' = kind x \<and> resultTypes x' = resultTypes x)) \<and>
           (\<forall>j. getOp st j = None \<longrightarrow> getOp st' j = None) \<and>
           (\<forall>k. k \<noteq> i \<and> uniquedConstants st (a, t) = Some k \<longrightarrow> uniquedConstants st' (a, t) = Some k)"
proof (cases "use_empty st i op")
  case True
  let ?st1 = "if uniquedConstants st (a, t) = Some i
                       then st\<lparr>uniquedConstants := (uniquedConstants st)((a, t) := None)\<rparr> else st"
  have "tryToFold hook st i preReplaceAction c = Inr (success, erase ?st1 i, c)"
    by (rule tryToFold_dead[OF assms True])
  moreover have "\<And>j. getOp (erase ?st1 i) j = (if j = i then None else getOp st j)"
    by (simp add: getOp_erase getOp_cache_update)
  moreover have "\<And>k. k \<noteq> i \<Longrightarrow> uniquedConstants st (a, t) = Some k \<Longrightarrow>
      uniquedConstants (erase ?st1 i) (a, t) = Some k"
    by (simp add: cache_erase)
  ultimately show ?thesis by auto
next
  case False
  note u = tryToFold_used[OF assms False, of hook preReplaceAction c]
  show ?thesis
  proof (cases "uniquedConstants st (a, t)")
    case None
    let ?st0 = "st\<lparr>uniquedConstants := (uniquedConstants st)((a, t) \<mapsto> i)\<rparr>"
    have g0: "getOp ?st0 i = Some op" using assms(1) by (simp add: getOp_cache_update)
    have "tryToFold hook st i preReplaceAction c = Inr (failure, moveConstantToEntryBlock ?st0 i, c)"
      using u None by simp
    moreover have "\<And>j. getOp (moveConstantToEntryBlock ?st0 i) j = getOp st j"
      by (simp add: getOp_move[OF g0] getOp_cache_update)
    moreover have "uniquedConstants (moveConstantToEntryBlock ?st0 i) (a, t) = Some i"
      by (simp add: cache_move)
    ultimately show ?thesis using None by auto
  next
    case (Some k)
    show ?thesis
    proof (cases "k = i")
      case True
      with u Some have "tryToFold hook st i preReplaceAction c = Inr (failure, st, c)" by simp
      then show ?thesis using Some True by auto
    next
      case F: False
      let ?st1 = "erase (replaceAllUsesWith st (OpResult i 0) (OpResult k 0)) i"
      have "tryToFold hook st i preReplaceAction c = Inr (success, ?st1, c)"
        using u Some F by simp
      moreover have "\<And>j. getOp ?st1 j =
          (if j = i then None else map_option (replaceIn (OpResult i 0) (OpResult k 0)) (getOp st j))"
        by (simp add: getOp_erase getOp_replaceAllUsesWith)
      moreover have "uniquedConstants ?st1 = uniquedConstants st"
        by (simp add: cache_erase cache_replaceAllUsesWith)
      ultimately show ?thesis by (auto simp: replaceIn_def)
    qed
  qed
qed

lemma two_constants_twice:
  assumes g1: "getOp st i1 = Some op1" and g2: "getOp st i2 = Some op2" and ne: "i1 \<noteq> i2"
    and k1: "kind op1 = ConstantOp a" and k2: "kind op2 = ConstantOp a"
    and t1: "resultTypes op1 = t # ts1" and t2: "resultTypes op2 = t # ts2"
  shows "\<exists>r1 st1 r2 st2.
       tryToFold hook st i1 preReplaceAction c = Inr (r1, st1, c) \<and>
       tryToFold hook st1 i2 preReplaceAction c = Inr (r2, st2, c) \<and>
       (getOp st2 i1 \<noteq> None \<longrightarrow> uniquedConstants st2 (a, t) = Some i1) \<and>
       (getOp st2 i2 \<noteq> None \<longrightarrow> uniquedConstants st2 (a, t) = Some i2) \<and>
       (getOp st2 i1 = None \<or> getOp st2 i2 = None) \<and>
       (\<forall>k. uniquedConstants st1 (a, t) = Some k \<and> k \<noteq> i2 \<longrightarrow>
          r2 = success \<and> getOp st2 i2 = None \<and> uniquedConstants st2 = uniquedConstants st1 \<and>
          (\<forall>j x. j \<noteq> i2 \<and> getOp st1 j = Some x \<longrightarrow>
             getOp st2 j = Some (replaceIn (OpResult i2 0) (OpResult k 0) x))) \<and>
       (\<not> use_empty st i1 op1 \<and> uniquedConstants st (a, t) = None \<longrightarrow>
          r1 = failure \<and> uniquedConstants st1 (a, t) = Some i1 \<and> (\<forall>j. getOp st1 j = getOp st j)) \<and>
       (use_empty st i1 op1 \<longrightarrow>
          r1 = success \<and> getOp st1 i1 = None \<and> uniquedConstants st1 (a, t) \<noteq> Some i1)"
proof -
  from tryToFold_constant_survivor[OF g1 k1 t1, of hook preReplaceAction c]
  obtain r1 st1 where f1: "tryToFold hook st i1 preReplaceAction c = Inr (r1, st1, c)"
    and a1: "getOp st1 i1 \<noteq> None \<longrightarrow> uniquedConstants st1 (a, t) = Some i1"
    and o1: "\<forall>j x. j \<noteq> i1 \<and> getOp st j = Some x \<longrightarrow>
              (\<exists>x'. getOp st1 j = Some x' \<and> kind x' = kind x \<and> resultTypes x' = resultTypes x)"
    by blast
  from o1[rule_format, of i2 op2] g2 ne
  have "\<exists>x'. getOp st1 i2 = Some x' \<and> kind x' = kind op2 \<and> resultTypes x' = resultTypes op2"
    by auto
  then obtain op2' where g2': "getOp st1 i2 = Some op2'"
    and k2': "kind op2' = ConstantOp a" and t2': "resultTypes op2' = t # ts2" using k2 t2 by auto
  from tryToFold_constant_survivor[OF g2' k2' t2', of hook preReplaceAction c]
  obtain r2 st2 where f2: "tryToFold hook st1 i2 preReplaceAction c = Inr (r2, st2, c)"
    and a2: "getOp st2 i2 \<noteq> None \<longrightarrow> uniquedConstants st2 (a, t) = Some i2"
    and n2: "\<forall>j. getOp st1 j = None \<longrightarrow> getOp st2 j = None"
    and e2: "\<forall>k. k \<noteq> i2 \<and> uniquedConstants st1 (a, t) = Some k \<longrightarrow> uniquedConstants st2 (a, t) = Some k"
    by blast
  have s1: "getOp st2 i1 \<noteq> None \<longrightarrow> uniquedConstants st2 (a, t) = Some i1"
  proof
    assume "getOp st2 i1 \<noteq> None"
    with n2[rule_format, of i1] have "getOp st1 i1 \<noteq> None" by auto
    with a1 have "uniquedConstants st1 (a, t) = Some i1" by simp
    with e2[rule_format, of i1] ne show "uniquedConstants st2 (a, t) = Some i1" by simp
  qed
  have one: "getOp st2 i1 = None \<or> getOp st2 i2 = None"
  proof (rule ccontr)
    assume "\<not> (getOp st2 i1 = None \<or> getOp st2 i2 = None)"
    with s1 a2 have "uniquedConstants st2 (a, t) = Some i1" "uniquedConstants st2 (a, t) = Some i2"
      by simp_all
    with ne show False by simp
  qed
  have dup: "\<forall>k. uniquedConstants st1 (a, t) = Some k \<and> k \<noteq> i2 \<longrightarrow>
          r2 = success \<and> getOp st2 i2 = None \<and> uniquedConstants st2 = uniquedConstants st1 \<and>
          (\<forall>j x. j \<noteq> i2 \<and> getOp st1 j = Some x \<longrightarrow>
             getOp st2 j = Some (replaceIn (OpResult i2 0) (OpResult k 0) x))"
  proof (intro allI impI)
    fix k assume k: "uniquedConstants st1 (a, t) = Some k \<and> k \<noteq> i2"
    then have kc: "uniquedConstants st1 (a, t) = Some k" and kn: "k \<noteq> i2" by simp_all
    from tryToFold_duplicate_constant[OF g2' k2' t2' kc kn, where hook=hook
        and preReplaceAction=preReplaceAction and c=c]
    obtain st' where d: "tryToFold hook st1 i2 preReplaceAction c = Inr (success, st', c)"
      "uniquedConstants st' = uniquedConstants st1" "getOp st' i2 = None"
      "\<forall>j x. j \<noteq> i2 \<and> getOp st1 j = Some x \<longrightarrow>
              getOp st' j = Some (replaceIn (OpResult i2 0) (OpResult k 0) x)" by blast
    from d(1) f2 have "r2 = success" "st' = st2" by simp_all
    with d show "r2 = success \<and> getOp st2 i2 = None \<and> uniquedConstants st2 = uniquedConstants st1 \<and>
          (\<forall>j x. j \<noteq> i2 \<and> getOp st1 j = Some x \<longrightarrow>
             getOp st2 j = Some (replaceIn (OpResult i2 0) (OpResult k 0) x))" by simp
  qed
  have reg: "\<not> use_empty st i1 op1 \<and> uniquedConstants st (a, t) = None \<longrightarrow>
     r1 = failure \<and> uniquedConstants st1 (a, t) = Some i1 \<and> (\<forall>j. getOp st1 j = getOp st j)"
  proof
    assume u: "\<not> use_empty st i1 op1 \<and> uniquedConstants st (a, t) = None"
    let ?st0 = "st\<lparr>uniquedConstants := (uniquedConstants st)((a, t) \<mapsto> i1)\<rparr>"
    have g0: "getOp ?st0 i1 = Some op1" using g1 by (simp add: getOp_cache_update)
    have "tryToFold hook st i1 preReplaceAction c = Inr (failure, moveConstantToEntryBlock ?st0 i1, c)"
      using tryToFold_used[OF g1 k1 t1, of hook preReplaceAction c] u by simp
    with f1 have "r1 = failure" "st1 = moveConstantToEntryBlock ?st0 i1" by simp_all
    then show "r1 = failure \<and> uniquedConstants st1 (a, t) = Some i1 \<and> (\<forall>j. getOp st1 j = getOp st j)"
      by (simp add: cache_move getOp_move[OF g0] getOp_cache_update)
  qed
  have dead: "use_empty st i1 op1 \<longrightarrow>
     r1 = success \<and> getOp st1 i1 = None \<and> uniquedConstants st1 (a, t) \<noteq> Some i1"
  proof
    assume u: "use_empty st i1 op1"
    from tryToFold_dead[OF g1 k1 t1 u, of hook preReplaceAction c] f1
    have "r1 = success" "st1 = erase (if uniquedConstants st (a, t) = Some i1
                       then st\<lparr>uniquedConstants := (uniquedConstants st)((a, t) := None)\<rparr> else st) i1"
      by simp_all
    then show "r1 = success \<and> getOp st1 i1 = None \<and> uniquedConstants st1 (a, t) \<noteq> Some i1"
      by (simp add: getOp_erase cache_erase)
  qed
  show ?thesis
    by (rule exI[of _ r1], rule exI[of _ st1], rule exI[of _ r2], rule exI[of _ st2])
       (intro conjI f1 f2 s1 a2 one dup reg dead)
qed

lemma two_folds_twice:
  assumes g1: "getOp s j1 = Some p1"
    and h1: "hook (fst (foldInput s p1)) (snd (foldInput s p1)) = Some (newOperands1, newAttrs1, foldResults1)"
    and f1: "tryToFoldResults hook s j1 results1 = Inr (q1, s1, results1')"
    and l1: "k1 < length foldResults1" and a1: "foldResults1 ! k1 = FoldAttr a'"
    and t1: "resultTypes p1 ! k1 = t'"
    and g2: "getOp s1 j2 = Some p2"
    and h2: "hook (fst (foldInput s1 p2)) (snd (foldInput s1 p2)) = Some (newOperands2, newAttrs2, foldResults2)"
    and f2: "tryToFoldResults hook s1 j2 results2 = Inr (q2, s2, results2')"
    and l2: "k2 < length foldResults2" and a2: "foldResults2 ! k2 = FoldAttr a'"
    and t2: "resultTypes p2 ! k2 = t'"
  shows "\<exists>k. results1' ! (length results1 + k1) = OpResult k 0 \<and>
          uniquedConstants s1 (a', t') = Some k \<and>
          results2' ! (length results2 + k2) = OpResult k 0 \<and>
          uniquedConstants s2 (a', t') = Some k \<and>
          (foldResults2 = [FoldAttr a'] \<longrightarrow>
             uniquedConstants s2 = uniquedConstants s1 \<and> nextOp s2 = nextOp s1 \<and>
             map (map fst) (body s2) = map (map fst) (body s1))"
proof -
  from tryToFoldResults_attr_position[where hook=hook, OF g1 h1 f1 l1 a1] t1
  obtain k where f: "results1' ! (length results1 + k1) = OpResult k 0"
    "uniquedConstants s1 (a', t') = Some k" by auto
  from tryToFoldResults_attr_position[where hook=hook, OF g2 h2 f2 l2 a2] t2
  obtain k' where g: "results2' ! (length results2 + k2) = OpResult k' 0"
    "uniquedConstants s2 (a', t') = Some k'"
    and mono: "\<forall>key c. uniquedConstants s1 key = Some c \<longrightarrow> uniquedConstants s2 key = Some c" by auto
  from mono[rule_format, OF f(2)] g(2) have kk: "k' = k" by simp
  have single: "foldResults2 = [FoldAttr a'] \<longrightarrow>
             uniquedConstants s2 = uniquedConstants s1 \<and> nextOp s2 = nextOp s1 \<and>
             map (map fst) (body s2) = map (map fst) (body s1)"
  proof
    assume x: "foldResults2 = [FoldAttr a']"
    with l2 have k0: "k2 = 0" by simp
    have rt: "resultTypes (fst (foldInput s1 p2)) = resultTypes p2" using foldInput_kind[of s1 p2] by simp
    have "length (resultTypes p2) = 1"
    proof (rule ccontr)
      assume "length (resultTypes p2) \<noteq> 1"
      with g2 h2 x rt have "tryToFoldResults hook s1 j2 results2 = Inl AssertionFailed"
        by (simp add: tryToFoldResults_def Let_def split_beta)
      with f2 show False by simp
    qed
    then obtain y where "resultTypes p2 = [y]" by (cases "resultTypes p2") auto
    with t2 k0 have r: "resultTypes p2 = [t']" by simp
    from tryToFoldResults_attr[where hook=hook and results=results2, OF g2 r h2[unfolded x]]
    obtain st' k'' where d: "tryToFoldResults hook s1 j2 results2 = Inr (success, st', results2 @ [OpResult k'' 0])"
      "\<forall>k'. uniquedConstants s1 (a', t') = Some k' \<longrightarrow>
              k'' = k' \<and> uniquedConstants st' = uniquedConstants s1 \<and> nextOp st' = nextOp s1 \<and>
              map (map fst) (body st') = map (map fst) (body s1)" by blast
    from d(1) f2 have "st' = s2" by simp
    with d(2)[rule_format, OF f(2)]
    show "uniquedConstants s2 = uniquedConstants s1 \<and> nextOp s2 = nextOp s1 \<and>
             map (map fst) (body s2) = map (map fst) (body s1)" by simp
  qed
  show ?thesis
    by (rule exI[of _ k]) (intro conjI f g(1)[unfolded kk] g(2)[unfolded kk] single)
qed

section \<open>Operations a fold leaves alone\<close>

lemma materialize_ids:
  assumes "materialize st i frs results = Inr (st', results')"
    and "idsOk st" and "getOp st i = Some op"
  shows "idsOk st' \<and> nextOp st \<le> nextOp st' \<and> (\<forall>j. j < nextOp st \<longrightarrow> getOp st' j = getOp st j)"
  using assms
proof (induction st i frs results rule: materialize.induct)
  case (1 st i results)
  then show ?case by simp
next
  case (2 st i t rest results)
  then show ?case by simp
next
  case (3 st i repl t rest results)
  from "3.prems"(1) have "materialize st i rest (results @ [repl]) = Inr (st', results')" by simp
  from "3.IH"[OF this "3.prems"(2,3)] show ?case .
next
  case (4 st i attrRepl t rest results)
  show ?case
  proof (cases "uniquedConstants st (attrRepl, t)")
    case (Some c)
    with "4.prems"(1) have "materialize st i rest (results @ [OpResult c 0]) = Inr (st', results')"
      by simp
    from "4.IH"(2)[OF Some this "4.prems"(2,3)] show ?thesis .
  next
    case None
    let ?K = "\<lparr>kind = ConstantOp attrRepl, operands = [], resultTypes = [t], attrs = [], isCommutative = False\<rparr>"
    let ?st3 = "st\<lparr>body := ((nextOp st, ?K) # hd (body st)) # tl (body st), nextOp := Suc (nextOp st),
                  uniquedConstants := (uniquedConstants st)((attrRepl, t) \<mapsto> nextOp st)\<rparr>"
    have ne: "body st \<noteq> []" using "4.prems"(3) by (rule getOp_Some_body)
    have h: "moveConstantToEntryBlock
               ((createBefore st i ?K)\<lparr>uniquedConstants :=
                   (uniquedConstants (createBefore st i ?K))((attrRepl, t) \<mapsto> nextOp st)\<rparr>) (nextOp st) = ?st3"
      using hoist_new_constant[OF "4.prems"(3) idsOk_fresh[OF "4.prems"(2)]]
      by (simp add: createBefore_def)
    have m: "materialize ?st3 i rest (results @ [OpResult (nextOp st) 0]) = Inr (st', results')"
      using "4.prems"(1) None h by (simp add: Let_def)
    have ids3: "idsOk ?st3" using "4.prems"(2) ne by (rule idsOk_pushed)
    have lt: "i < nextOp st" using "4.prems"(2,3) by (rule getOp_bound)
    have g3: "\<And>j. j < nextOp st \<Longrightarrow> getOp ?st3 j = getOp st j"
      by (simp add: getOp_pushed[OF ne])
    have gi: "getOp ?st3 i = Some op" using g3[OF lt] "4.prems"(3) by simp
    from "4.IH"(1)[OF None refl refl refl refl, unfolded h, OF m ids3 gi]
    have r: "idsOk st' \<and> nextOp ?st3 \<le> nextOp st' \<and> (\<forall>j<nextOp ?st3. getOp st' j = getOp ?st3 j)" .
    then show ?thesis using g3 by auto
  qed
qed

lemma idsOk_setOp: "idsOk (setOp st i op) = idsOk st"
  by (simp add: setOp_def idsOk_updateOps)

lemma tryToFoldResults_others:
  assumes "idsOk st" and "getOp st i = Some op"
    and "tryToFoldResults hook st i results = Inr (r, st1, results')"
  shows "\<forall>j. j \<noteq> i \<and> j < nextOp st \<longrightarrow> getOp st1 j = getOp st j"
proof -
  let ?op1 = "fst (foldInput st op)"
  let ?cs = "snd (foldInput st op)"
  let ?sta = "setOp st i ?op1"
  show ?thesis
  proof (cases "hook ?op1 ?cs")
    case None
    with assms(2,3) have "st1 = ?sta"
      by (simp add: tryToFoldResults_def Let_def split_beta)
    then show ?thesis by (simp add: getOp_setOp)
  next
    case (Some x)
    obtain newOperands newAttrs foldResults where x: "x = (newOperands, newAttrs, foldResults)"
      by (cases x)
    let ?op2 = "?op1\<lparr>operands := newOperands, attrs := newAttrs\<rparr>"
    let ?stb = "setOp ?sta i ?op2"
    have idb: "idsOk ?stb" using assms(1) by (simp add: idsOk_setOp)
    have gb: "getOp ?stb i = Some ?op2" using assms(2) by (simp add: getOp_setOp)
    have gj: "\<And>j. j \<noteq> i \<Longrightarrow> getOp ?stb j = getOp st j" by (simp add: getOp_setOp)
    show ?thesis
    proof (cases "foldResults = []")
      case True
      with assms(2,3) Some x have "st1 = ?stb"
        by (simp add: tryToFoldResults_def Let_def split_beta)
      then show ?thesis using gj by simp
    next
      case False
      with assms(2,3) Some x have
        m: "materialize ?stb i (zip foldResults (resultTypes ?op1)) results = Inr (st1, results')"
        by (simp add: tryToFoldResults_def Let_def split_beta split: if_splits sum.splits)
      from materialize_ids[OF m idb gb]
      have "\<forall>j. j < nextOp ?stb \<longrightarrow> getOp st1 j = getOp ?stb j" by simp
      then show ?thesis using gj by (simp add: nextOp_setOp)
    qed
  qed
qed

section \<open>The calls on the function with a dead first constant\<close>

lemma getOp_exDeadFirst:
  "getOp exDeadFirst 10 = Some (constantOp (IntegerAttr i32 4) i32)"
  "getOp exDeadFirst 11 = Some (constantOp (IntegerAttr i32 4) i32)"
  by (simp_all add: exDeadFirst_def getOp_def allOps_def)

lemma tryToFold_exDeadFirst_1:
  "tryToFold noFold exDeadFirst 10 None () = Inr (success, exDeadFirstErased, ())"
  by (simp add: tryToFold_def notifyRemoval_def use_empty_def opResults_def users_def
      erase_def m_Constant_def
      exDeadFirst_def exDeadFirstErased_def getOp_def allOps_def constantOp_def returnOp_def)

lemma tryToFold_exDeadFirst_2:
  "tryToFold noFold exDeadFirstErased 11 None () = Inr (failure, exDeadFirstRegistered, ())"
  by (simp add: tryToFold_def tryToUnify_def use_empty_def opResults_def users_def
      moveConstantToEntryBlock_def m_Constant_def
      exDeadFirstErased_def exDeadFirstRegistered_def getOp_def allOps_def constantOp_def returnOp_def)

lemma tryToFoldResults_exTwoSums_again:
  "tryToFoldResults addFold exTwoSumsHoisted 13 [] = Inr (success, exTwoSumsHoisted, [OpResult 15 0])"
  by (simp add: tryToFoldResults_def foldInput_def swapCommutative_def addFold_def
      m_ConstantValue_def m_Constant_def setOp_def updateOps_def
      exTwoSumsHoisted_def getOp_def allOps_def constantOp_def addOp_def returnOp_def
      i32_def)

section \<open>notifyRemoval\<close>

text \<open>
  C6. \<open>notifyRemoval\<close> on an operation of the function: when the operation is not
  matched as a constant, the folder is returned as it is. When it is a constant with
  value \<open>a\<close> and result type \<open>t\<close>, the entry of the key \<open>(a, t)\<close> is removed exactly
  when that entry is the operation itself; with another operation there, or no entry,
  the folder is returned as it is.
\<close>

theorem notifyRemoval_cache:
  assumes "getOp st i = Some op"
  shows "(m_Constant op = None \<longrightarrow> notifyRemoval st i = Inr st) \<and>
         (\<forall>a t ts. m_Constant op = Some a \<and> resultTypes op = t # ts \<longrightarrow>
            (uniquedConstants st (a, t) = Some i \<longrightarrow>
               notifyRemoval st i =
                 Inr (st\<lparr>uniquedConstants := (uniquedConstants st)((a, t) := None)\<rparr>)) \<and>
            (uniquedConstants st (a, t) \<noteq> Some i \<longrightarrow> notifyRemoval st i = Inr st))"
  using assms by (simp add: notifyRemoval_def)

theorem notifyRemoval_cache_witness:
  "getOp exAddCached 10 = Some (constantOp (IntegerAttr i32 3) i32) \<and>
   notifyRemoval exAddCached 10 = Inr (exAddCached\<lparr>uniquedConstants := Map.empty\<rparr>) \<and>
   notifyRemoval exAddCached 11 = Inr exAddCached"
  using notifyRemoval_cache [of exAddCached 10 "constantOp (IntegerAttr i32 3) i32"]
        notifyRemoval_cache [of exAddCached 11 "addOp (OpResult 10 0) (BlockArgument 0 0)"]
  by (simp add: exAddCached_def exAdd_def getOp_def allOps_def m_Constant_def constantOp_def addOp_def)

text \<open>
  C10. A call of \<open>notifyRemoval\<close> that returns leaves the graph as it was: the blocks
  with their operations in their order, hence every operation, its operands and
  results, and the users of every value. Only the map of uniqued constants can differ.
\<close>

theorem notifyRemoval_graph_untouched:
  assumes "notifyRemoval st i = Inr st'"
  shows "body st' = body st \<and> nextOp st' = nextOp st \<and> allOps st' = allOps st \<and>
         (\<forall>j. getOp st' j = getOp st j) \<and> (\<forall>v. users st' v = users st v)"
proof -
  have b: "body st' = body st \<and> nextOp st' = nextOp st"
    using assms by (rule notifyRemoval_frame)
  then show ?thesis by (simp add: allOps_def getOp_def users_def)
qed

theorem notifyRemoval_graph_untouched_witness:
  "notifyRemoval exAddCached 10 = Inr (exAddCached\<lparr>uniquedConstants := Map.empty\<rparr>) \<and>
   body (exAddCached\<lparr>uniquedConstants := Map.empty\<rparr>) = body exAddCached"
  using notifyRemoval_graph_untouched [of exAddCached 10 "exAddCached\<lparr>uniquedConstants := Map.empty\<rparr>"]
  by (simp add: notifyRemoval_def exAddCached_def exAdd_def getOp_def allOps_def m_Constant_def constantOp_def)

section \<open>tryToFold on a constant\<close>

text \<open>
  C5. \<open>tryToFold\<close> on a constant operation without uses reports success, whatever
  callback is passed the caller's state is returned as it was (the callback is not
  run), the operation is erased and every other operation is as before. The entry of
  the operation's key is removed when it was the operation itself, and the map of
  uniqued constants is unchanged otherwise.
\<close>

theorem tryToFold_dead_constant:
  assumes "getOp st i = Some op" and "kind op = ConstantOp a" and "resultTypes op = t # ts"
    and "use_empty st i op"
  shows "\<exists>st'. tryToFold hook st i preReplaceAction c = Inr (success, st', c) \<and>
           getOp st' i = None \<and>
           (\<forall>j. j \<noteq> i \<longrightarrow> getOp st' j = getOp st j) \<and>
           (uniquedConstants st (a, t) = Some i \<longrightarrow>
              uniquedConstants st' = (uniquedConstants st)((a, t) := None)) \<and>
           (uniquedConstants st (a, t) \<noteq> Some i \<longrightarrow> uniquedConstants st' = uniquedConstants st)"
proof (cases "uniquedConstants st (a, t) = Some i")
  case True
  with assms have "tryToFold hook st i preReplaceAction c =
      Inr (success, erase (st\<lparr>uniquedConstants := (uniquedConstants st)((a, t) := None)\<rparr>) i, c)"
    by (simp add: tryToFold_def notifyRemoval_def kind_m_Constant)
  then show ?thesis using True by (simp add: getOp_erase cache_erase getOp_cache_update)
next
  case False
  with assms have "tryToFold hook st i preReplaceAction c = Inr (success, erase st i, c)"
    by (simp add: tryToFold_def notifyRemoval_def kind_m_Constant)
  then show ?thesis using False by (simp add: getOp_erase cache_erase)
qed

theorem tryToFold_dead_constant_witness:
  "use_empty exDead 10 (constantOp (IntegerAttr i32 3) i32) \<and>
   (\<exists>st'. tryToFold noFold exDead 10 (Some logCall) [] = Inr (success, st', []) \<and>
      getOp st' 10 = None \<and> uniquedConstants st' = Map.empty)"
proof -
  have c: "uniquedConstants exDead (IntegerAttr i32 3, i32) = Some 10"
    by (simp add: exDead_def)
  have e: "(uniquedConstants exDead)((IntegerAttr i32 3, i32) := None) = Map.empty"
    by (simp add: exDead_def)
  show ?thesis
    using tryToFold_dead_constant [OF getOp_exDead _ _ use_empty_exDead,
        of "IntegerAttr i32 3" i32 "[]" noFold "Some logCall" "[]"] use_empty_exDead c e
    by (auto simp: constantOp_def)
qed

text \<open>
  C3. \<open>tryToFold\<close> on a constant operation that has a use goes by the entry of its key
  \<open>(a, t)\<close>. No entry: failure, the operation is registered under the key and is now
  the first operation of the entry block, the other operations keeping their order.
  The entry is the operation itself: failure, and the folder is returned as it is. The
  entry is another operation \<open>k\<close>: success, the operation is erased, its result has no
  user left, and in every other operation each operand that was the operation's result
  is now the result of \<open>k\<close>.
\<close>

theorem tryToFold_constant_cases:
  assumes "getOp st i = Some op" and "kind op = ConstantOp a" and "resultTypes op = t # ts"
    and "\<not> use_empty st i op"
  shows "(uniquedConstants st (a, t) = None \<longrightarrow>
            (\<exists>st' b bs. tryToFold hook st i preReplaceAction c = Inr (failure, st', c) \<and>
               uniquedConstants st' = (uniquedConstants st)((a, t) \<mapsto> i) \<and>
               map (filter (\<lambda>p. fst p \<noteq> i)) (body st) = b # bs \<and>
               body st' = ((i, op) # b) # bs \<and>
               (\<forall>j. getOp st' j = getOp st j))) \<and>
         (uniquedConstants st (a, t) = Some i \<longrightarrow>
            tryToFold hook st i preReplaceAction c = Inr (failure, st, c)) \<and>
         (\<forall>k. uniquedConstants st (a, t) = Some k \<and> k \<noteq> i \<longrightarrow>
            (\<exists>st'. tryToFold hook st i preReplaceAction c = Inr (success, st', c) \<and>
               uniquedConstants st' = uniquedConstants st \<and>
               getOp st' i = None \<and>
               users st' (OpResult i 0) = [] \<and>
               (\<forall>j. j \<noteq> i \<longrightarrow>
                  getOp st' j = map_option (replaceIn (OpResult i 0) (OpResult k 0)) (getOp st j))))"
proof (intro conjI impI allI)
  assume n: "uniquedConstants st (a, t) = None"
  let ?st1 = "st\<lparr>uniquedConstants := (uniquedConstants st)((a, t) \<mapsto> i)\<rparr>"
  have g: "getOp ?st1 i = Some op" using assms(1) by (simp add: getOp_cache_update)
  have r: "tryToFold hook st i preReplaceAction c = Inr (failure, moveConstantToEntryBlock ?st1 i, c)"
    using assms n by (simp add: tryToFold_def tryToUnify_def kind_m_Constant)
  from body_move[OF g] obtain b bs where
    b: "map (filter (\<lambda>p. fst p \<noteq> i)) (body st) = b # bs"
       "body (moveConstantToEntryBlock ?st1 i) = ((i, op) # b) # bs" by auto
  show "\<exists>st' b bs. tryToFold hook st i preReplaceAction c = Inr (failure, st', c) \<and>
               uniquedConstants st' = (uniquedConstants st)((a, t) \<mapsto> i) \<and>
               map (filter (\<lambda>p. fst p \<noteq> i)) (body st) = b # bs \<and>
               body st' = ((i, op) # b) # bs \<and>
               (\<forall>j. getOp st' j = getOp st j)"
    using r b by (simp add: cache_move getOp_move[OF g] getOp_cache_update)
next
  assume "uniquedConstants st (a, t) = Some i"
  then show "tryToFold hook st i preReplaceAction c = Inr (failure, st, c)"
    using assms by (simp add: tryToFold_def tryToUnify_def kind_m_Constant)
next
  fix k assume k: "uniquedConstants st (a, t) = Some k \<and> k \<noteq> i"
  let ?st1 = "replaceAllUsesWith st (OpResult i 0) (OpResult k 0)"
  have r: "tryToFold hook st i preReplaceAction c = Inr (success, erase ?st1 i, c)"
    using assms k by (simp add: tryToFold_def tryToUnify_def kind_m_Constant)
  have u: "users (erase ?st1 i) (OpResult i 0) = []"
    using k by (intro users_erase_empty users_replaceAllUsesWith_self) simp
  show "\<exists>st'. tryToFold hook st i preReplaceAction c = Inr (success, st', c) \<and>
               uniquedConstants st' = uniquedConstants st \<and>
               getOp st' i = None \<and>
               users st' (OpResult i 0) = [] \<and>
               (\<forall>j. j \<noteq> i \<longrightarrow>
                  getOp st' j = map_option (replaceIn (OpResult i 0) (OpResult k 0)) (getOp st j))"
    using r u by (simp add: getOp_erase cache_erase getOp_replaceAllUsesWith cache_replaceAllUsesWith)
qed

theorem tryToFold_constant_cases_witness:
  "getOp exTwoConsts 11 = Some (constantOp (IntegerAttr i32 4) i32) \<and>
   \<not> use_empty exTwoConsts 11 (constantOp (IntegerAttr i32 4) i32) \<and>
   uniquedConstants exTwoConsts (IntegerAttr i32 4, i32) = Some 10 \<and>
   (\<exists>st'. tryToFold noFold exTwoConsts 11 None () = Inr (success, st', ()) \<and>
      getOp st' 11 = None \<and> getOp st' 12 = Some (addOp (OpResult 10 0) (OpResult 10 0)))"
proof -
  have c: "uniquedConstants exTwoConsts (IntegerAttr i32 4, i32) = Some 10"
    by (simp add: exTwoConsts_def)
  have k: "kind (constantOp (IntegerAttr i32 4) i32) = ConstantOp (IntegerAttr i32 4)"
    and t: "resultTypes (constantOp (IntegerAttr i32 4) i32) = i32 # []"
    by (simp_all add: constantOp_def)
  show ?thesis
    using tryToFold_constant_cases [OF getOp_exTwoConsts(1) k t used_exTwoConsts, of noFold None "()"]
      getOp_exTwoConsts used_exTwoConsts c
    by (auto simp: replaceIn_def addOp_def)
qed

section \<open>The private tryToFold\<close>

text \<open>
  C7. The fold hook is called on \<open>foldInput\<close>. For an operation with exactly the two
  operands \<open>x\<close> and \<open>y\<close> that is commutative, \<open>x\<close> matched as the constant \<open>c\<close> and \<open>y\<close>
  not matched, the hook gets the operation with the operands \<open>[y, x]\<close> and the
  constants \<open>[None, Some c]\<close>; in every other case it gets the operation as it is and
  the constants in operand order. The fold fails exactly when the hook declines this
  input.
\<close>

theorem foldInput_swap:
  assumes "getOp st i = Some op"
  shows "(\<forall>x y c. operands op = [x, y] \<and> isCommutative op \<and>
            m_ConstantValue st x = Some c \<and> m_ConstantValue st y = None \<longrightarrow>
            foldInput st op = (op\<lparr>operands := [y, x]\<rparr>, [None, Some c])) \<and>
         (\<not> (\<exists>x y c. operands op = [x, y] \<and> isCommutative op \<and>
               m_ConstantValue st x = Some c \<and> m_ConstantValue st y = None) \<longrightarrow>
            foldInput st op = (op, map (m_ConstantValue st) (operands op))) \<and>
         ((\<exists>st' results'. tryToFoldResults hook st i results = Inr (failure, st', results')) =
            (hook (fst (foldInput st op)) (snd (foldInput st op)) = None)) \<and>
         (hook (fst (foldInput st op)) (snd (foldInput st op)) = None \<longrightarrow>
            tryToFoldResults hook st i results = Inr (failure, setOp st i (fst (foldInput st op)), results))"
proof (intro conjI)
  show "\<forall>x y c. operands op = [x, y] \<and> isCommutative op \<and>
            m_ConstantValue st x = Some c \<and> m_ConstantValue st y = None \<longrightarrow>
            foldInput st op = (op\<lparr>operands := [y, x]\<rparr>, [None, Some c])"
    by (auto simp: foldInput_def swapCommutative_def)
  show "\<not> (\<exists>x y c. operands op = [x, y] \<and> isCommutative op \<and>
               m_ConstantValue st x = Some c \<and> m_ConstantValue st y = None) \<longrightarrow>
            foldInput st op = (op, map (m_ConstantValue st) (operands op))"
    using foldInput_cases[of op st] by blast
  show "(\<exists>st' results'. tryToFoldResults hook st i results = Inr (failure, st', results')) =
            (hook (fst (foldInput st op)) (snd (foldInput st op)) = None)"
    using tryToFoldResults_failure[OF assms] tryToFoldResults_declined[OF assms] by blast
  show "hook (fst (foldInput st op)) (snd (foldInput st op)) = None \<longrightarrow>
            tryToFoldResults hook st i results = Inr (failure, setOp st i (fst (foldInput st op)), results)"
    using tryToFoldResults_declined[OF assms] by blast
qed

theorem foldInput_swap_witness:
  "getOp exAdd 11 = Some (addOp (OpResult 10 0) (BlockArgument 0 0)) \<and>
   m_ConstantValue exAdd (OpResult 10 0) = Some (IntegerAttr i32 3) \<and>
   m_ConstantValue exAdd (BlockArgument 0 0) = None \<and>
   foldInput exAdd (addOp (OpResult 10 0) (BlockArgument 0 0)) =
     ((addOp (OpResult 10 0) (BlockArgument 0 0))\<lparr>operands := [BlockArgument 0 0, OpResult 10 0]\<rparr>,
      [None, Some (IntegerAttr i32 3)]) \<and>
   tryToFoldResults noFold exAdd 11 [] = Inr (failure, exAddSwapped, [])"
proof -
  have m: "m_ConstantValue exAdd (OpResult 10 0) = Some (IntegerAttr i32 3)"
     "m_ConstantValue exAdd (BlockArgument 0 0) = None"
    by (simp_all add: m_ConstantValue_def m_Constant_def getOp_exAdd constantOp_def)
  have o: "operands (addOp (OpResult 10 0) (BlockArgument 0 0)) = [OpResult 10 0, BlockArgument 0 0]"
    and k: "isCommutative (addOp (OpResult 10 0) (BlockArgument 0 0))"
    by (simp_all add: addOp_def)
  have n: "noFold (fst (foldInput exAdd (addOp (OpResult 10 0) (BlockArgument 0 0))))
             (snd (foldInput exAdd (addOp (OpResult 10 0) (BlockArgument 0 0)))) = None"
    by (simp add: noFold_def)
  show ?thesis
    using foldInput_swap [OF getOp_exAdd(2), of noFold "[]"] m o k n getOp_exAdd(2)
    by (simp add: foldInput_exAdd setOp_exAdd)
qed

text \<open>
  C1 (as stated in the spec it does not hold: the swap of a commutative operation is
  written to the operation before the hook is asked, and stays when the hook declines).
  The function \<open>exAdd\<close> is a counterexample: \<open>tryToFold\<close> on its add reports failure
  and the add has its operands exchanged.
\<close>

theorem tryToFold_failure_swap_counterexample:
  "tryToFold noFold exAdd 11 None () = Inr (failure, exAddSwapped, ()) \<and>
   getOp exAdd 11 = Some (addOp (OpResult 10 0) (BlockArgument 0 0)) \<and>
   getOp exAddSwapped 11 = Some (addOp (BlockArgument 0 0) (OpResult 10 0)) \<and>
   exAddSwapped \<noteq> exAdd"
proof -
  have "getOp exAddSwapped 11 = Some (addOp (BlockArgument 0 0) (OpResult 10 0))"
    by (simp add: exAddSwapped_def getOp_def allOps_def)
  moreover have "exAddSwapped \<noteq> exAdd"
    by (simp add: exAddSwapped_def exAdd_def addOp_def)
  ultimately show ?thesis by (simp add: getOp_exAdd tryToFold_exAdd)
qed

text \<open>
  C1, amended. When \<open>tryToFold\<close> reports failure on an operation that is not a constant
  (operation identifiers being distinct), the caller's state, the map of uniqued
  constants, the order of the operations in their blocks, every other operation and
  the users of every value are as before. The operation itself is as before, and so is
  the whole folder, unless it is commutative with exactly two operands, the first a
  constant and the second not: then its two operands are exchanged.
\<close>

theorem tryToFold_failure_effect:
  assumes "getOp st i = Some op" and "kind op = OtherOp n"
    and "distinct (map fst (allOps st))"
    and "tryToFold hook st i preReplaceAction c = Inr (failure, st', c')"
  shows "c' = c \<and> uniquedConstants st' = uniquedConstants st \<and> nextOp st' = nextOp st \<and>
         map (map fst) (body st') = map (map fst) (body st) \<and>
         (\<forall>j. j \<noteq> i \<longrightarrow> getOp st' j = getOp st j) \<and>
         (\<forall>v. users st' v = users st v) \<and>
         (\<forall>x y a. operands op = [x, y] \<and> isCommutative op \<and>
              m_ConstantValue st x = Some a \<and> m_ConstantValue st y = None \<longrightarrow>
              getOp st' i = Some (op\<lparr>operands := [y, x]\<rparr>)) \<and>
         (\<not> (\<exists>x y a. operands op = [x, y] \<and> isCommutative op \<and>
              m_ConstantValue st x = Some a \<and> m_ConstantValue st y = None) \<longrightarrow> st' = st)"
proof -
  from assms(1,2,4) obtain results' where
    r: "tryToFoldResults hook st i [] = Inr (failure, st', results')" and c: "c' = c"
    by (auto simp: tryToFold_def Let_def split: sum.splits prod.splits LogicalResult.splits if_splits)
  from tryToFoldResults_failure[OF assms(1) r]
  have st': "st' = setOp st i (fst (foldInput st op))" by simp
  have frame: "uniquedConstants st' = uniquedConstants st \<and> nextOp st' = nextOp st \<and>
         map (map fst) (body st') = map (map fst) (body st) \<and>
         (\<forall>j. j \<noteq> i \<longrightarrow> getOp st' j = getOp st j)"
    by (simp add: st' getOp_setOp) (simp add: setOp_def cache_updateOps nextOp_updateOps ids_updateOps)
  from foldInput_cases[of op st] show ?thesis
  proof (elim disjE exE conjE)
    fix x y a
    assume h: "operands op = [x, y]" "isCommutative op" "m_ConstantValue st x = Some a"
      "m_ConstantValue st y = None" "foldInput st op = (op\<lparr>operands := [y, x]\<rparr>, [None, Some a])"
    have s: "st' = setOp st i (op\<lparr>operands := [y, x]\<rparr>)" using st' h by simp
    have u: "\<forall>v. users st' v = users st v"
      unfolding s using h(1) by (intro allI users_setOp[OF assms(3) assms(1)]) auto
    have g: "getOp st' i = Some (op\<lparr>operands := [y, x]\<rparr>)"
      using assms(1) by (simp add: s getOp_setOp)
    show ?thesis using c frame u g h by auto
  next
    assume h: "\<not> (\<exists>x y c. operands op = [x, y] \<and> isCommutative op \<and> m_ConstantValue st x = Some c \<and>
       m_ConstantValue st y = None)" "foldInput st op = (op, map (m_ConstantValue st) (operands op))"
    have "st' = st" using st' h(2) setOp_same[OF assms(3) assms(1)] by simp
    then show ?thesis using c h(1) by auto
  qed
qed

theorem tryToFold_failure_effect_witness:
  "getOp exAdd 11 = Some (addOp (OpResult 10 0) (BlockArgument 0 0)) \<and>
   distinct (map fst (allOps exAdd)) \<and>
   tryToFold noFold exAdd 11 None () = Inr (failure, exAddSwapped, ()) \<and>
   uniquedConstants exAddSwapped = uniquedConstants exAdd \<and>
   users exAddSwapped (OpResult 10 0) = users exAdd (OpResult 10 0) \<and>
   getOp exAddSwapped 11 =
     Some ((addOp (OpResult 10 0) (BlockArgument 0 0))\<lparr>operands := [BlockArgument 0 0, OpResult 10 0]\<rparr>)"
proof -
  have k: "kind (addOp (OpResult 10 0) (BlockArgument 0 0)) = OtherOp ''std.addi''"
    by (simp add: addOp_def)
  have d: "distinct (map fst (allOps exAdd))" by (simp add: exAdd_def allOps_def)
  have m: "m_ConstantValue exAdd (OpResult 10 0) = Some (IntegerAttr i32 3)"
     "m_ConstantValue exAdd (BlockArgument 0 0) = None"
    by (simp_all add: m_ConstantValue_def m_Constant_def getOp_exAdd constantOp_def)
  show ?thesis
    using tryToFold_failure_effect [OF getOp_exAdd(2) k d tryToFold_exAdd] getOp_exAdd(2) d
      tryToFold_exAdd m
    by (simp add: addOp_def)
qed

section \<open>The create helper\<close>

text \<open>
  C9. \<open>create\<close> with a builder that inserts into a block of the function, for a new
  operation with at least one result. When the fold hook reports success with no fold
  results (an update in place), the new operation is erased all the same, the caller's
  \<open>results\<close> come back as they were (empty when they were empty), every other operation
  is as before, and the one-result overload reads the front of an empty buffer. When
  the hook declines, the operation stays and \<open>results\<close> are its own results. And
  whenever \<open>create\<close> returns, the new operation is still there exactly when the hook
  declined.
\<close>

theorem create_erases_on_success:
  assumes "b < length (body st)" and "nextOp st \<notin> fst ` set (allOps st)"
    and "resultTypes newOp \<noteq> []"
  shows "(\<forall>newOperands newAttrs.
            hook (fst (foldInput (createAt st b p newOp) newOp))
                 (snd (foldInput (createAt st b p newOp) newOp)) = Some (newOperands, newAttrs, []) \<longrightarrow>
            (\<exists>st'. create hook st b p newOp results = Inr (st', results) \<and>
               getOp st' (nextOp st) = None \<and>
               (\<forall>j. j \<noteq> nextOp st \<longrightarrow> getOp st' j = getOp st j)) \<and>
            createOneResult hook st b p newOp = Inl OutOfBounds) \<and>
         (hook (fst (foldInput (createAt st b p newOp) newOp))
               (snd (foldInput (createAt st b p newOp) newOp)) = None \<longrightarrow>
            (\<exists>st'. create hook st b p newOp results = Inr (st', opResults (nextOp st) newOp) \<and>
               getOp st' (nextOp st) = Some (fst (foldInput (createAt st b p newOp) newOp)))) \<and>
         (\<forall>st' results'. create hook st b p newOp results = Inr (st', results') \<longrightarrow>
            (getOp st' (nextOp st) \<noteq> None) =
            (hook (fst (foldInput (createAt st b p newOp) newOp))
                  (snd (foldInput (createAt st b p newOp) newOp)) = None))"
proof -
  let ?st0 = "createAt st b p newOp"
  let ?i = "nextOp st"
  let ?inp = "foldInput ?st0 newOp"
  have g: "getOp ?st0 ?i = Some newOp" and g': "\<And>j. j \<noteq> ?i \<Longrightarrow> getOp ?st0 j = getOp st j"
    by (simp_all add: getOp_createAt[OF assms(1,2)])
  have inplace: "(\<exists>st'. create hook st b p newOp rs = Inr (st', rs) \<and>
               getOp st' ?i = None \<and> (\<forall>j. j \<noteq> ?i \<longrightarrow> getOp st' j = getOp st j))"
    if "hook (fst ?inp) (snd ?inp) = Some (newOperands, newAttrs, [])" for newOperands newAttrs rs
    using tryToFoldResults_inplace[where st="?st0" and i="?i" and op=newOp and hook=hook, OF g that, of rs]
      assms(3) g'
    by (simp add: create_def Let_def getOp_erase getOp_setOp)
  have one: "createOneResult hook st b p newOp = Inl OutOfBounds"
    if h: "hook (fst ?inp) (snd ?inp) = Some (newOperands, newAttrs, [])" for newOperands newAttrs
  proof -
    from inplace[OF h, of "[]"] obtain st' where "create hook st b p newOp [] = Inr (st', [])" by blast
    then show ?thesis by (simp add: createOneResult_def)
  qed
  have declined: "\<exists>st'. create hook st b p newOp results = Inr (st', opResults ?i newOp) \<and>
               getOp st' ?i = Some (fst ?inp)"
    if "hook (fst ?inp) (snd ?inp) = None"
    using tryToFoldResults_declined[where st="?st0" and i="?i" and op=newOp and hook=hook, OF g that, of results] g
    by (simp add: create_def Let_def getOp_setOp)
  have iff: "(getOp st' ?i \<noteq> None) = (hook (fst ?inp) (snd ?inp) = None)"
    if c: "create hook st b p newOp results = Inr (st', results')" for st' results'
  proof (cases "tryToFoldResults hook ?st0 ?i results")
    case (Inl e)
    with c show ?thesis by (simp add: create_def Let_def)
  next
    case (Inr x)
    obtain r st1 rs where x: "x = (r, st1, rs)" by (cases x)
    show ?thesis
    proof (cases r)
      case success
      with Inr x c assms(3) have "st' = erase st1 ?i" by (simp add: create_def Let_def)
      moreover have "hook (fst ?inp) (snd ?inp) \<noteq> None"
        using tryToFoldResults_success_hook[where st="?st0" and i="?i" and op=newOp and hook=hook, OF g]
          Inr x success by simp
      ultimately show ?thesis by (simp add: getOp_erase)
    next
      case failure
      with Inr x c have s: "st' = st1" by (simp add: create_def Let_def)
      from tryToFoldResults_failure[where st="?st0" and i="?i" and op=newOp and hook=hook, OF g] Inr x failure
      have "st1 = setOp ?st0 ?i (fst ?inp)" "hook (fst ?inp) (snd ?inp) = None" by simp_all
      then show ?thesis using s g by (simp add: getOp_setOp)
    qed
  qed
  show ?thesis using inplace one declined iff by blast
qed

theorem create_erases_on_success_witness:
  "0 < length (body exAdd) \<and> nextOp exAdd \<notin> fst ` set (allOps exAdd) \<and>
   resultTypes (addOp (BlockArgument 0 0) (BlockArgument 0 0)) \<noteq> [] \<and>
   (\<exists>st'. create inPlaceFold exAdd 0 1 (addOp (BlockArgument 0 0) (BlockArgument 0 0)) [] = Inr (st', []) \<and>
      getOp st' (nextOp exAdd) = None) \<and>
   createOneResult inPlaceFold exAdd 0 1 (addOp (BlockArgument 0 0) (BlockArgument 0 0)) = Inl OutOfBounds"
proof -
  have b: "0 < length (body exAdd)" and f: "nextOp exAdd \<notin> fst ` set (allOps exAdd)"
    by (simp_all add: exAdd_def allOps_def)
  have r: "resultTypes (addOp (BlockArgument 0 0) (BlockArgument 0 0)) \<noteq> []"
    by (simp add: addOp_def)
  show ?thesis
    using create_erases_on_success [OF b f r, of inPlaceFold 1 "[]"] b f r
    by (simp add: inPlaceFold_def) blast
qed

section \<open>The uniqued constants dominate their uses\<close>



section \<open>Replacing the results of a folded operation\<close>


text \<open>
  Where no replacement value is a result of the folded operation itself, replacing the
  results one after the other is replacing them at once: in every other operation that
  was in the function each operand that was the \<open>k\<close>-th result is then the \<open>k\<close>-th
  replacement value and the other operands are as before, and the folded operation is
  gone. The fold of \<open>exSum\<close> is an instance.
\<close>

lemma replaceResults_independent:
  assumes "idsOk st" and "getOp st i = Some op" and "kind op = OtherOp n"
    and "tryToFoldResults hook st i [] = Inr (success, st1, results)" and "results \<noteq> []"
    and "\<forall>r \<in> set results. \<forall>m. r \<noteq> OpResult i m"
  shows "\<exists>st' c'. tryToFold hook st i preReplaceAction c = Inr (success, st', c') \<and>
           getOp st' i = None \<and>
           (\<forall>j x. j \<noteq> i \<and> getOp st j = Some x \<longrightarrow>
              getOp st' j = Some (x\<lparr>operands := map (replacement i 0 results) (operands x)\<rparr>))"
proof -
  let ?st' = "erase (replaceResults st1 i 0 results) i"
  have t: "tryToFold hook st i preReplaceAction c =
             Inr (success, ?st', (case preReplaceAction of Some f \<Rightarrow> f st1 i c | None \<Rightarrow> c))"
    using assms(4,5) by (simp add: tryToFold_other[OF assms(2,3)] Let_def)
  from tryToFoldResults_others[OF assms(1,2,4)]
  have e: "\<forall>j. j \<noteq> i \<and> j < nextOp st \<longrightarrow> getOp st1 j = getOp st j" .
  have r: "\<And>r m. r \<in> set results \<Longrightarrow> r \<noteq> OpResult i m" using assms(6) by blast
  have "getOp ?st' j = Some (x\<lparr>operands := map (replacement i 0 results) (operands x)\<rparr>)"
    if "j \<noteq> i" "getOp st j = Some x" for j x
  proof -
    have "j < nextOp st" using assms(1) that(2) by (rule getOp_bound)
    with e that have "getOp st1 j = Some x" by simp
    then show ?thesis using that(1) by (simp add: getOp_erase getOp_replaceResults[OF r])
  qed
  moreover have "getOp ?st' i = None" by (simp add: getOp_erase)
  ultimately show ?thesis using t by blast
qed

lemma idsOk_exSum: "idsOk exSum"
  by (simp add: idsOk_def exSum_def allOps_def)

lemma replaceResults_exSum:
  "\<exists>st' c'. tryToFold addFold exSum 12 None () = Inr (success, st', c') \<and>
      getOp st' 12 = None \<and> getOp st' 13 = Some (returnOp [OpResult 14 0])"
proof -
  have g: "getOp exSum 12 = Some (addOp (OpResult 10 0) (OpResult 11 0))"
    and g': "getOp exSum 13 = Some (returnOp [OpResult 12 0])"
    by (simp_all add: exSum_def getOp_def allOps_def)
  have k: "kind (addOp (OpResult 10 0) (OpResult 11 0)) = OtherOp ''std.addi''"
    by (simp add: addOp_def)
  have n: "[OpResult 14 0] \<noteq> []" and o: "\<forall>r \<in> set [OpResult 14 0]. \<forall>m. r \<noteq> OpResult 12 m"
    by simp_all
  have "(returnOp [OpResult 12 0])\<lparr>operands := map (replacement 12 0 [OpResult 14 0])
          (operands (returnOp [OpResult 12 0]))\<rparr> = returnOp [OpResult 14 0]"
    by (simp add: returnOp_def replacement_def)
  then show ?thesis
    using replaceResults_independent [OF idsOk_exSum g k tryToFoldResults_exSum n o, of None "()"] g'
    by auto
qed

section \<open>Uniquing is idempotent\<close>

text \<open>
  C8 (as stated in the spec it does not hold: a constant without uses is erased, not
  registered, so a first invocation on it registers nothing for the second to resolve
  to). In \<open>exDeadFirst\<close> two constants carry the pair \<open>(4, i32)\<close> and the first has no use:
  \<open>tryToFold\<close> on the first reports success and erases it, the pair still has no entry,
  and \<open>tryToFold\<close> on the second reports failure and registers the second itself.
\<close>

theorem uniquing_dead_first_counterexample:
  "getOp exDeadFirst 10 = Some (constantOp (IntegerAttr i32 4) i32) \<and>
   getOp exDeadFirst 11 = Some (constantOp (IntegerAttr i32 4) i32) \<and>
   tryToFold noFold exDeadFirst 10 None () = Inr (success, exDeadFirstErased, ()) \<and>
   getOp exDeadFirstErased 10 = None \<and>
   uniquedConstants exDeadFirstErased (IntegerAttr i32 4, i32) = None \<and>
   tryToFold noFold exDeadFirstErased 11 None () = Inr (failure, exDeadFirstRegistered, ()) \<and>
   uniquedConstants exDeadFirstRegistered (IntegerAttr i32 4, i32) = Some 11"
proof -
  have "getOp exDeadFirstErased 10 = None"
    by (simp add: exDeadFirstErased_def getOp_def allOps_def)
  moreover have "uniquedConstants exDeadFirstErased (IntegerAttr i32 4, i32) = None"
    by (simp add: exDeadFirstErased_def)
  moreover have "uniquedConstants exDeadFirstRegistered (IntegerAttr i32 4, i32) = Some 11"
    by (simp add: exDeadFirstRegistered_def)
  ultimately show ?thesis
    by (simp add: getOp_exDeadFirst tryToFold_exDeadFirst_1 tryToFold_exDeadFirst_2)
qed

text \<open>
  C8, amended. Let two distinct constants carry the value \<open>a\<close> and the type \<open>t\<close>, and call
  \<open>tryToFold\<close> on the first and then on the second; both calls return. Each of the two
  that is still in the function afterwards is the entry of \<open>(a, t)\<close>, so at most one of
  them is left and two canonical operations never remain. Whenever \<open>(a, t)\<close> has an
  entry \<open>k\<close> other than the second constant when the second is folded, the second call
  reports success, erases the second constant, turns every operand that was its result
  into the result of \<open>k\<close>, and leaves the map as it is. The first call makes the first
  constant that entry when the constant has a use and \<open>(a, t)\<close> had no entry; a first
  constant without uses is erased and is not the entry. For two successful folds one
  after the other whose outcomes name the attribute \<open>a'\<close> at a result of type \<open>t'\<close>, at any
  result position: both positions yield the result of one and the same operation \<open>k\<close>,
  the entry of \<open>(a', t')\<close> after the first fold and still after the second; and a second
  fold whose whole outcome is that attribute creates no operation.
\<close>

theorem uniquing_idempotent:
  "(getOp st i1 = Some op1 \<and> getOp st i2 = Some op2 \<and> i1 \<noteq> i2 \<and>
    kind op1 = ConstantOp a \<and> kind op2 = ConstantOp a \<and>
    resultTypes op1 = t # ts1 \<and> resultTypes op2 = t # ts2 \<longrightarrow>
    (\<exists>r1 st1 r2 st2.
       tryToFold hook st i1 preReplaceAction c = Inr (r1, st1, c) \<and>
       tryToFold hook st1 i2 preReplaceAction c = Inr (r2, st2, c) \<and>
       (getOp st2 i1 \<noteq> None \<longrightarrow> uniquedConstants st2 (a, t) = Some i1) \<and>
       (getOp st2 i2 \<noteq> None \<longrightarrow> uniquedConstants st2 (a, t) = Some i2) \<and>
       (getOp st2 i1 = None \<or> getOp st2 i2 = None) \<and>
       (\<forall>k. uniquedConstants st1 (a, t) = Some k \<and> k \<noteq> i2 \<longrightarrow>
          r2 = success \<and> getOp st2 i2 = None \<and> uniquedConstants st2 = uniquedConstants st1 \<and>
          (\<forall>j x. j \<noteq> i2 \<and> getOp st1 j = Some x \<longrightarrow>
             getOp st2 j = Some (replaceIn (OpResult i2 0) (OpResult k 0) x))) \<and>
       (\<not> use_empty st i1 op1 \<and> uniquedConstants st (a, t) = None \<longrightarrow>
          r1 = failure \<and> uniquedConstants st1 (a, t) = Some i1 \<and> (\<forall>j. getOp st1 j = getOp st j)) \<and>
       (use_empty st i1 op1 \<longrightarrow>
          r1 = success \<and> getOp st1 i1 = None \<and> uniquedConstants st1 (a, t) \<noteq> Some i1))) \<and>
   (getOp s j1 = Some p1 \<and>
    hook (fst (foldInput s p1)) (snd (foldInput s p1)) = Some (newOperands1, newAttrs1, foldResults1) \<and>
    tryToFoldResults hook s j1 results1 = Inr (q1, s1, results1') \<and>
    k1 < length foldResults1 \<and> foldResults1 ! k1 = FoldAttr a' \<and> resultTypes p1 ! k1 = t' \<and>
    getOp s1 j2 = Some p2 \<and>
    hook (fst (foldInput s1 p2)) (snd (foldInput s1 p2)) = Some (newOperands2, newAttrs2, foldResults2) \<and>
    tryToFoldResults hook s1 j2 results2 = Inr (q2, s2, results2') \<and>
    k2 < length foldResults2 \<and> foldResults2 ! k2 = FoldAttr a' \<and> resultTypes p2 ! k2 = t' \<longrightarrow>
    (\<exists>k. results1' ! (length results1 + k1) = OpResult k 0 \<and>
          uniquedConstants s1 (a', t') = Some k \<and>
          results2' ! (length results2 + k2) = OpResult k 0 \<and>
          uniquedConstants s2 (a', t') = Some k \<and>
          (foldResults2 = [FoldAttr a'] \<longrightarrow>
             uniquedConstants s2 = uniquedConstants s1 \<and> nextOp s2 = nextOp s1 \<and>
             map (map fst) (body s2) = map (map fst) (body s1))))"
proof (intro conjI impI)
  assume "getOp st i1 = Some op1 \<and> getOp st i2 = Some op2 \<and> i1 \<noteq> i2 \<and>
    kind op1 = ConstantOp a \<and> kind op2 = ConstantOp a \<and>
    resultTypes op1 = t # ts1 \<and> resultTypes op2 = t # ts2"
  then have h: "getOp st i1 = Some op1" "getOp st i2 = Some op2" "i1 \<noteq> i2"
    "kind op1 = ConstantOp a" "kind op2 = ConstantOp a"
    "resultTypes op1 = t # ts1" "resultTypes op2 = t # ts2" by simp_all
  show "\<exists>r1 st1 r2 st2.
       tryToFold hook st i1 preReplaceAction c = Inr (r1, st1, c) \<and>
       tryToFold hook st1 i2 preReplaceAction c = Inr (r2, st2, c) \<and>
       (getOp st2 i1 \<noteq> None \<longrightarrow> uniquedConstants st2 (a, t) = Some i1) \<and>
       (getOp st2 i2 \<noteq> None \<longrightarrow> uniquedConstants st2 (a, t) = Some i2) \<and>
       (getOp st2 i1 = None \<or> getOp st2 i2 = None) \<and>
       (\<forall>k. uniquedConstants st1 (a, t) = Some k \<and> k \<noteq> i2 \<longrightarrow>
          r2 = success \<and> getOp st2 i2 = None \<and> uniquedConstants st2 = uniquedConstants st1 \<and>
          (\<forall>j x. j \<noteq> i2 \<and> getOp st1 j = Some x \<longrightarrow>
             getOp st2 j = Some (replaceIn (OpResult i2 0) (OpResult k 0) x))) \<and>
       (\<not> use_empty st i1 op1 \<and> uniquedConstants st (a, t) = None \<longrightarrow>
          r1 = failure \<and> uniquedConstants st1 (a, t) = Some i1 \<and> (\<forall>j. getOp st1 j = getOp st j)) \<and>
       (use_empty st i1 op1 \<longrightarrow>
          r1 = success \<and> getOp st1 i1 = None \<and> uniquedConstants st1 (a, t) \<noteq> Some i1)"
    by (rule two_constants_twice[OF h])
next
  assume "getOp s j1 = Some p1 \<and>
    hook (fst (foldInput s p1)) (snd (foldInput s p1)) = Some (newOperands1, newAttrs1, foldResults1) \<and>
    tryToFoldResults hook s j1 results1 = Inr (q1, s1, results1') \<and>
    k1 < length foldResults1 \<and> foldResults1 ! k1 = FoldAttr a' \<and> resultTypes p1 ! k1 = t' \<and>
    getOp s1 j2 = Some p2 \<and>
    hook (fst (foldInput s1 p2)) (snd (foldInput s1 p2)) = Some (newOperands2, newAttrs2, foldResults2) \<and>
    tryToFoldResults hook s1 j2 results2 = Inr (q2, s2, results2') \<and>
    k2 < length foldResults2 \<and> foldResults2 ! k2 = FoldAttr a' \<and> resultTypes p2 ! k2 = t'"
  then have h: "getOp s j1 = Some p1"
    "hook (fst (foldInput s p1)) (snd (foldInput s p1)) = Some (newOperands1, newAttrs1, foldResults1)"
    "tryToFoldResults hook s j1 results1 = Inr (q1, s1, results1')"
    "k1 < length foldResults1" "foldResults1 ! k1 = FoldAttr a'" "resultTypes p1 ! k1 = t'"
    "getOp s1 j2 = Some p2"
    "hook (fst (foldInput s1 p2)) (snd (foldInput s1 p2)) = Some (newOperands2, newAttrs2, foldResults2)"
    "tryToFoldResults hook s1 j2 results2 = Inr (q2, s2, results2')"
    "k2 < length foldResults2" "foldResults2 ! k2 = FoldAttr a'" "resultTypes p2 ! k2 = t'"
    by simp_all
  show "\<exists>k. results1' ! (length results1 + k1) = OpResult k 0 \<and>
          uniquedConstants s1 (a', t') = Some k \<and>
          results2' ! (length results2 + k2) = OpResult k 0 \<and>
          uniquedConstants s2 (a', t') = Some k \<and>
          (foldResults2 = [FoldAttr a'] \<longrightarrow>
             uniquedConstants s2 = uniquedConstants s1 \<and> nextOp s2 = nextOp s1 \<and>
             map (map fst) (body s2) = map (map fst) (body s1))"
    by (rule two_folds_twice[where hook=hook, OF h])
qed

theorem uniquing_idempotent_witness:
  "(getOp exTwoFresh 11 = Some (constantOp (IntegerAttr i32 4) i32) \<and>
    getOp exTwoFresh 10 = Some (constantOp (IntegerAttr i32 4) i32) \<and>
    \<not> use_empty exTwoFresh 11 (constantOp (IntegerAttr i32 4) i32) \<and>
    uniquedConstants exTwoFresh (IntegerAttr i32 4, i32) = None) \<and>
   (\<exists>st1 st2.
      tryToFold addFold exTwoFresh 11 None () = Inr (failure, st1, ()) \<and>
      uniquedConstants st1 (IntegerAttr i32 4, i32) = Some 11 \<and>
      tryToFold addFold st1 10 None () = Inr (success, st2, ()) \<and>
      uniquedConstants st2 (IntegerAttr i32 4, i32) = Some 11 \<and> getOp st2 10 = None) \<and>
   tryToFoldResults addFold exTwoSums 12 [] = Inr (success, exTwoSumsHoisted, [OpResult 15 0]) \<and>
   tryToFoldResults addFold exTwoSumsHoisted 13 [] = Inr (success, exTwoSumsHoisted, [OpResult 15 0]) \<and>
   uniquedConstants exTwoSumsHoisted (IntegerAttr i32 5, i32) = Some 15"
proof -
  have e: "uniquedConstants exTwoFresh (IntegerAttr i32 4, i32) = None"
    by (simp add: exTwoFresh_def)
  have k: "kind (constantOp (IntegerAttr i32 4) i32) = ConstantOp (IntegerAttr i32 4)"
    and t: "resultTypes (constantOp (IntegerAttr i32 4) i32) = i32 # []"
    and ta: "resultTypes (addOp (OpResult 10 0) (OpResult 11 0)) ! 0 = i32"
    and tb: "resultTypes (addOp (OpResult 11 0) (OpResult 10 0)) ! 0 = i32"
    by (simp_all add: constantOp_def addOp_def)
  note w = uniquing_idempotent [where st=exTwoFresh and ?i1.0=11 and ?i2.0=10
      and ?op1.0="constantOp (IntegerAttr i32 4) i32" and ?op2.0="constantOp (IntegerAttr i32 4) i32"
      and a="IntegerAttr i32 4" and t=i32 and ?ts1.0="[]" and ?ts2.0="[]"
      and hook=addFold and preReplaceAction=None and c="()"
      and s=exTwoSums and ?j1.0=12 and ?p1.0="addOp (OpResult 10 0) (OpResult 11 0)" and t'=i32
      and ?newOperands1.0="[OpResult 10 0, OpResult 11 0]" and ?newAttrs1.0="[]"
      and ?foldResults1.0="[FoldAttr (IntegerAttr i32 5)]" and ?k1.0=0
      and a'="IntegerAttr i32 5" and ?results1.0="[]" and ?q1.0=success and ?s1.0=exTwoSumsHoisted
      and results1'="[OpResult 15 0]" and ?j2.0=13 and ?p2.0="addOp (OpResult 11 0) (OpResult 10 0)"
      and ?newOperands2.0="[OpResult 11 0, OpResult 10 0]" and ?newAttrs2.0="[]"
      and ?foldResults2.0="[FoldAttr (IntegerAttr i32 5)]" and ?k2.0=0
      and ?results2.0="[]" and ?q2.0=success and ?s2.0=exTwoSumsHoisted and results2'="[OpResult 15 0]"]
  show ?thesis
    using w getOp_exTwoFresh used_exTwoFresh e k t ta tb getOp_exTwoSums addFold_exTwoSums
      tryToFoldResults_exTwoSums tryToFoldResults_exTwoSums_again
    by auto
qed

end
